theory Spec2Isabelle
  imports Main "HOL-Library.Sublist"
begin

section \<open>JavaScript strings\<close>

text \<open>
  A JavaScript string is a sequence of UTF-16 code units. A code unit is modelled as a
  natural number (the values below 65536 are the ones that occur; nothing below depends on
  the bound). String literals of the source are written \<open>js ''...''\<close>.
\<close>

type_synonym jsstring = "nat list"

definition js :: "string \<Rightarrow> jsstring" where
  "js s = map of_char s"

text \<open>
  \<open>String.prototype.toUpperCase\<close>. On the ASCII range it maps \<open>a..z\<close> to \<open>A..Z\<close> and
  keeps every other unit. Outside ASCII the result is given by the Unicode case tables,
  which are not part of the repository: they are the parameter \<open>U\<close> (a unit may map to
  several units, as \<open>U+00DF\<close> does).
\<close>

definition toUpperAscii :: "nat \<Rightarrow> nat" where
  "toUpperAscii c = (if 97 \<le> c \<and> c \<le> 122 then c - 32 else c)"

definition toUpperCase :: "(nat \<Rightarrow> jsstring) \<Rightarrow> jsstring \<Rightarrow> jsstring" where
  "toUpperCase U s = concat (map (\<lambda>c. if c < 128 then [toUpperAscii c] else U c) s)"

section \<open>The regular expressions of the source\<close>

text \<open>
  Every regular expression that \<open>upload.js\<close> tests a whole string against is a sequence of
  one-character atoms between \<open>^\<close> and \<open>$\<close>: a literal, \<open>\d\<close> or a character class.
\<close>

datatype atom = Lit nat | Digit | OneOf "nat list"

definition isDigit :: "nat \<Rightarrow> bool" where
  "isDigit c = (48 \<le> c \<and> c \<le> 57)"

fun atom_matches :: "atom \<Rightarrow> nat \<Rightarrow> bool" where
  "atom_matches (Lit l) c = (c = l)"
| "atom_matches Digit c = isDigit c"
| "atom_matches (OneOf ls) c = (c \<in> set ls)"

text \<open>\<open>/^a1 ... an$/.test(s)\<close>, without flags.\<close>

fun regex_test :: "atom list \<Rightarrow> jsstring \<Rightarrow> bool" where
  "regex_test [] s = (s = [])"
| "regex_test (a # as) [] = False"
| "regex_test (a # as) (c # cs) = (atom_matches a c \<and> regex_test as cs)"

text \<open>\<open>/^GOPR\d{4}\.MP4$/\<close>\<close>

definition re_GOPR :: "atom list" where
  "re_GOPR = map Lit (js ''GOPR'') @ [Digit, Digit, Digit, Digit] @ map Lit (js ''.MP4'')"

text \<open>\<open>/^G[HO]\d{2}\d{4}\.MP4$/\<close>\<close>

definition re_GH :: "atom list" where
  "re_GH = [Lit (of_char CHR ''G''), OneOf (js ''HO'')] @ [Digit, Digit] @ [Digit, Digit, Digit, Digit]
           @ map Lit (js ''.MP4'')"

section \<open>Filename classifier\<close>

text \<open>
  \<open>isLikelyGoProName(filename)\<close>. The argument is \<open>None\<close> for \<open>undefined\<close> or \<open>null\<close>;
  \<open>!filename\<close> holds for these and for the empty string.
\<close>

definition isLikelyGoProName :: "(nat \<Rightarrow> jsstring) \<Rightarrow> jsstring option \<Rightarrow> bool" where
  "isLikelyGoProName U filename =
     (case filename of
        None \<Rightarrow> False
      | Some name \<Rightarrow>
          if name = [] then False
          else let upper = toUpperCase U name in
            if regex_test re_GOPR upper then True
            else if regex_test re_GH upper then True
            else False)"

section \<open>Values that may be undefined, and thrown errors\<close>

text \<open>
  A value that is a string or \<open>undefined\<close> is a \<open>jsstring option\<close>. \<open>a || b\<close> yields \<open>b\<close>
  when \<open>a\<close> is \<open>undefined\<close> or the empty string.
\<close>

definition truthy :: "jsstring option \<Rightarrow> bool" where
  "truthy a = (case a of None \<Rightarrow> False | Some s \<Rightarrow> s \<noteq> [])"

definition js_or :: "jsstring option \<Rightarrow> jsstring \<Rightarrow> jsstring" where
  "js_or a b = (case a of None \<Rightarrow> b | Some s \<Rightarrow> if s = [] then b else s)"

text \<open>
  A thrown value is observed only through \<open>err.message\<close>, which a value thrown by a library
  need not have.
\<close>

datatype js_error = Error (message: "jsstring option")

section \<open>String helpers of the runtime\<close>

text \<open>\<open>s.includes(t)\<close>\<close>

fun str_includes :: "jsstring \<Rightarrow> jsstring \<Rightarrow> bool" where
  "str_includes [] t = (t = [])"
| "str_includes (c # cs) t = (prefix t (c # cs) \<or> str_includes cs t)"

text \<open>
  \<open>s.replace(/[...]/g, r)\<close> for a character class: every unit in the class is replaced
  by \<open>r\<close>, the others are kept.
\<close>

definition replace_class :: "(nat \<Rightarrow> bool) \<Rightarrow> jsstring \<Rightarrow> jsstring \<Rightarrow> jsstring" where
  "replace_class in_class r s = concat (map (\<lambda>c. if in_class c then r else [c]) s)"

text \<open>
  The replacement applied to the private key, \<open>replace\<close> with a global pattern for the
  two characters backslash, \<open>n\<close>: scanning from the left, each backslash (unit 92)
  directly followed by \<open>n\<close> (unit 110) becomes one line feed (unit 10), and the scan
  resumes after the pair.
\<close>

fun replace_backslash_n :: "jsstring \<Rightarrow> jsstring" where
  "replace_backslash_n (c # d # s) =
     (if c = 92 \<and> d = 110 then 10 # replace_backslash_n s
      else c # replace_backslash_n (d # s))"
| "replace_backslash_n s = s"

text \<open>\<open>lines.join(sep)\<close>\<close>

fun join :: "jsstring \<Rightarrow> jsstring list \<Rightarrow> jsstring" where
  "join sep [] = []"
| "join sep [x] = x"
| "join sep (x # y # ys) = x @ sep @ join sep (y # ys)"

section \<open>Multipart decoder\<close>

text \<open>
  The event handed to the function. \<open>headers\<close> and \<open>body\<close> may be missing
  (\<open>event.headers || {}\<close>, \<open>event.body || ''\<close>).
\<close>

record event =
  httpMethod :: jsstring
  headers :: "(jsstring \<rightharpoonup> jsstring) option"
  body :: "jsstring option"
  isBase64Encoded :: bool

text \<open>
  The \<open>busboy\<close> library is not part of the repository. What it does with the headers and
  the body is a parameter of the model: either it emits \<open>error\<close>, or it emits the parts in
  the order of the body and then \<open>finish\<close>. A \<open>field\<close> event carries name and value; a
  \<open>file\<close> event carries the field name, the file name and MIME type (either may be
  \<open>undefined\<close>) and the \<open>data\<close> chunks of the stream, each a list of bytes.
\<close>

datatype part =
  FieldPart jsstring jsstring
| FilePart jsstring "jsstring option" "jsstring option" "nat list list"

type_synonym busboy = "(jsstring \<rightharpoonup> jsstring) \<Rightarrow> jsstring \<Rightarrow> bool \<Rightarrow> js_error + part list"

text \<open>The object pushed onto \<open>files\<close> when a file stream ends.\<close>

record file_part =
  fieldname :: jsstring
  filename :: "jsstring option"
  mimeType :: "jsstring option"
  buffer :: "nat list"
  fsize :: nat

text \<open>
  The two event handlers. \<open>fields[name] = value\<close> on a plain object stores the value under
  the key, except for the key \<open>__proto__\<close>, where assigning a string changes nothing.
\<close>

fun on_part ::
  "(jsstring \<rightharpoonup> jsstring) \<times> file_part list \<Rightarrow> part \<Rightarrow> (jsstring \<rightharpoonup> jsstring) \<times> file_part list" where
  "on_part (flds, fls) (FieldPart k v) =
     (if k = js ''__proto__'' then (flds, fls) else (flds(k \<mapsto> v), fls))"
| "on_part (flds, fls) (FilePart fname fnm mt chunks) =
     (let buf = concat chunks
      in (flds, fls @ [\<lparr>fieldname = fname, filename = fnm, mimeType = mt,
                          buffer = buf, fsize = length buf\<rparr>]))"

definition headers_of :: "event \<Rightarrow> (jsstring \<rightharpoonup> jsstring)" where
  "headers_of ev = (case headers ev of None \<Rightarrow> Map.empty | Some h \<Rightarrow> h)"

definition contentType_of :: "event \<Rightarrow> jsstring" where
  "contentType_of ev =
     js_or (headers_of ev (js ''content-type''))
       (js_or (headers_of ev (js ''Content-Type'')) [])"

definition parseMultipart ::
  "busboy \<Rightarrow> event \<Rightarrow> js_error + (jsstring \<rightharpoonup> jsstring) \<times> file_part list" where
  "parseMultipart Busboy ev =
     (if \<not> str_includes (contentType_of ev) (js ''multipart/form-data'')
      then Inl (Error (Some (js ''Unsupported content type. Expected multipart/form-data.'')))
      else (case Busboy (headers_of ev) (js_or (body ev) []) (isBase64Encoded ev) of
              Inl err \<Rightarrow> Inl err
            | Inr parts \<Rightarrow> Inr (foldl on_part (Map.empty, []) parts)))"

section \<open>Storage client factory\<close>

record env =
  GDRIVE_CLIENT_EMAIL :: "jsstring option"
  GDRIVE_PRIVATE_KEY :: "jsstring option"
  GDRIVE_FOLDER_ID :: "jsstring option"

text \<open>
  What \<open>getDriveClient\<close> returns: the folder id, and the handle \<open>drive\<close>, which is
  determined by the credentials and the scopes it was built from.
\<close>

record drive_client =
  client_email :: jsstring
  private_key :: jsstring
  scopes :: "jsstring list"
  folderId :: jsstring

definition getDriveClient :: "env \<Rightarrow> js_error + drive_client" where
  "getDriveClient e =
     (let clientEmail = GDRIVE_CLIENT_EMAIL e;
          privateKeyRaw = js_or (GDRIVE_PRIVATE_KEY e) [];
          folderIdEnv = GDRIVE_FOLDER_ID e
      in if \<not> truthy clientEmail \<or> privateKeyRaw = [] \<or> \<not> truthy folderIdEnv
         then Inl (Error (Some (js
           ''Missing one or more env vars: GDRIVE_CLIENT_EMAIL, GDRIVE_PRIVATE_KEY, GDRIVE_FOLDER_ID'')))
         else let privateKey = replace_backslash_n privateKeyRaw
              in Inr \<lparr>client_email = js_or clientEmail [],
                      private_key = privateKey,
                      scopes = [js ''https://www.googleapis.com/auth/drive.file''],
                      folderId = js_or folderIdEnv []\<rparr>)"

section \<open>Request handler\<close>

subsection \<open>The storage backend and the clock\<close>

text \<open>The argument of \<open>drive.files.create\<close> and the \<open>data\<close> of its result.\<close>

record fileMetadata =
  name :: jsstring
  parents :: "jsstring list"
  description :: jsstring

record media =
  media_mimeType :: jsstring
  media_body :: "nat list"

record create_params =
  requestBody :: fileMetadata
  media :: media
  req_fields :: jsstring

record drive_data =
  data_id :: jsstring
  data_name :: jsstring

text \<open>
  The storage backend is not part of the repository. Its answer to a \<open>create\<close> call is a
  parameter of the model: it may depend on the client and on the calls the handler has
  already made, which are passed as the list of their arguments, oldest first.
\<close>

type_synonym drive =
  "drive_client \<Rightarrow> create_params list \<Rightarrow> create_params \<Rightarrow> js_error + drive_data"

text \<open>
  \<open>clock n\<close> is what the \<open>n\<close>-th evaluation of \<open>new Date().toISOString()\<close> within the
  invocation returns, counting from 0.
\<close>

type_synonym clock = "nat \<Rightarrow> jsstring"

subsection \<open>Responses\<close>

text \<open>
  The \<open>body\<close> of a response is the empty string or \<open>JSON.stringify\<close> of one of two object
  shapes; the model keeps the object. \<open>ErrorBody e\<close> is \<open>{ ok: false, error: e }\<close>, and
  \<open>OkBody m n us\<close> is \<open>{ ok: true, message: m, uploadedCount: n, uploads: us }\<close>.
\<close>

record upload =
  up_id :: jsstring
  up_name :: jsstring
  originalName :: jsstring
  verified :: bool
  sizeBytes :: nat

datatype json_body =
  EmptyBody
| ErrorBody jsstring
| OkBody jsstring nat "upload list"

record response =
  statusCode :: nat
  resp_headers :: "(jsstring \<times> jsstring) list"
  resp_body :: json_body

definition response204 :: response where
  "response204 =
     \<lparr>statusCode = 204,
      resp_headers = [(js ''Access-Control-Allow-Origin'', js ''*''),
                      (js ''Access-Control-Allow-Methods'', js ''POST, OPTIONS''),
                      (js ''Access-Control-Allow-Headers'', js ''Content-Type'')],
      resp_body = EmptyBody\<rparr>"

definition response405 :: response where
  "response405 =
     \<lparr>statusCode = 405,
      resp_headers = [(js ''Content-Type'', js ''application/json'')],
      resp_body = ErrorBody (js ''Method Not Allowed'')\<rparr>"

definition response400 :: response where
  "response400 =
     \<lparr>statusCode = 400,
      resp_headers = [(js ''Content-Type'', js ''application/json'')],
      resp_body = ErrorBody (js ''No video files found in upload.'')\<rparr>"

definition response200 :: "upload list \<Rightarrow> response" where
  "response200 ups =
     \<lparr>statusCode = 200,
      resp_headers = [(js ''Content-Type'', js ''application/json''),
                      (js ''Access-Control-Allow-Origin'', js ''*'')],
      resp_body = OkBody
        (js ''Upload complete. Your Yellow Camera clip has been saved. You can now pass the camera on.'')
        (length ups) ups\<rparr>"

text \<open>The \<open>catch\<close> block.\<close>

definition response500 :: "js_error \<Rightarrow> response" where
  "response500 err =
     \<lparr>statusCode = 500,
      resp_headers = [(js ''Content-Type'', js ''application/json''),
                      (js ''Access-Control-Allow-Origin'', js ''*'')],
      resp_body = ErrorBody (js_or (message err) (js ''Unexpected error during upload.''))\<rparr>"

subsection \<open>The bindings made before the loop\<close>

text \<open>
  The constants bound between the client construction and the loop. \<open>fields.x || d\<close> reads
  a key of the field object; the defaults are those of the source.
\<close>

record locals =
  nowIso :: jsstring
  cameraId :: jsstring
  cameraCode :: jsstring
  location :: jsstring
  filmed :: jsstring
  nickname :: jsstring
  email :: jsstring
  shareLink :: jsstring
  safeCameraCode :: jsstring
  timestampSlug :: jsstring

text \<open>The units of the class \<open>A-Za-z0-9_-\<close>.\<close>

definition isCodeChar :: "nat \<Rightarrow> bool" where
  "isCodeChar c =
     ((65 \<le> c \<and> c \<le> 90) \<or> (97 \<le> c \<and> c \<le> 122) \<or> (48 \<le> c \<and> c \<le> 57)
      \<or> c = of_char CHR ''_'' \<or> c = of_char CHR ''-'')"

definition bind_locals :: "(jsstring \<rightharpoonup> jsstring) \<Rightarrow> jsstring \<Rightarrow> locals" where
  "bind_locals flds now =
     (let code = js_or (flds (js ''camera_code'')) (js ''no-code'')
      in \<lparr>nowIso = now,
          cameraId = js_or (flds (js ''camera_id'')) (js ''unknown-camera''),
          cameraCode = code,
          location = js_or (flds (js ''location'')) (js ''unknown-location''),
          filmed = js_or (flds (js ''date_filmed'')) [],
          nickname = js_or (flds (js ''name'')) [],
          email = js_or (flds (js ''email'')) [],
          shareLink = js_or (flds (js ''share_link'')) [],
          safeCameraCode = replace_class (\<lambda>c. \<not> isCodeChar c) [] code,
          timestampSlug =
            replace_class (\<lambda>c. c = of_char CHR '':'' \<or> c = of_char CHR ''.'') (js ''-'') now\<rparr>)"

subsection \<open>The loop over the files\<close>

definition original_of :: "file_part \<Rightarrow> jsstring" where
  "original_of f = js_or (filename f) (js ''clip.mp4'')"

definition newName_of :: "locals \<Rightarrow> jsstring \<Rightarrow> jsstring" where
  "newName_of v original =
     js ''YC-'' @ (if safeCameraCode v = [] then js ''NA'' else safeCameraCode v)
       @ js ''_'' @ timestampSlug v @ js ''_'' @ original"

text \<open>\<open>filter(Boolean)\<close> drops the empty strings.\<close>

definition descriptionLines_of :: "locals \<Rightarrow> jsstring \<Rightarrow> bool \<Rightarrow> jsstring list" where
  "descriptionLines_of v original ver =
     filter (\<lambda>l. l \<noteq> [])
       [js ''Yellow Camera Project raw clip'',
        js ''Original filename: '' @ original,
        js ''Camera ID: '' @ cameraId v,
        js ''Camera code: '' @ cameraCode v,
        js ''Location: '' @ location v,
        if filmed v \<noteq> [] then js ''Date filmed: '' @ filmed v else [],
        if nickname v \<noteq> [] then js ''Person: '' @ nickname v else [],
        if email v \<noteq> [] then js ''Contact: '' @ email v else [],
        if shareLink v \<noteq> [] then js ''Share link: '' @ shareLink v else [],
        js ''Upload time: '' @ nowIso v,
        js ''Verified Yellow Camera filename pattern: '' @ (if ver then js ''yes'' else js ''no'')]"

text \<open>The argument of the \<open>create\<close> call for one file; the line feed is unit 10.\<close>

definition create_params_of ::
  "(nat \<Rightarrow> jsstring) \<Rightarrow> drive_client \<Rightarrow> locals \<Rightarrow> file_part \<Rightarrow> create_params" where
  "create_params_of U client v f =
     (let original = original_of f;
          ver = isLikelyGoProName U (Some original);
          newName = newName_of v original;
          descriptionLines = descriptionLines_of v original ver
      in \<lparr>requestBody = \<lparr>name = newName, parents = [folderId client],
                           description = join [10] descriptionLines\<rparr>,
          media = \<lparr>media_mimeType = js_or (mimeType f) (js ''video/mp4''),
                    media_body = buffer f\<rparr>,
          req_fields = js ''id, name''\<rparr>)"

text \<open>
  The \<open>for\<close> loop, with the list \<open>uploads\<close> and the calls made so far as accumulators. A
  rejected \<open>create\<close> leaves the loop at once with the error; the failed call has been made.
\<close>

fun upload_loop ::
  "(nat \<Rightarrow> jsstring) \<Rightarrow> drive \<Rightarrow> drive_client \<Rightarrow> locals \<Rightarrow> file_part list \<Rightarrow> upload list
     \<Rightarrow> create_params list \<Rightarrow> (js_error + upload list) \<times> create_params list" where
  "upload_loop U Drive client v [] ups calls = (Inr ups, calls)"
| "upload_loop U Drive client v (f # fs) ups calls =
     (let p = create_params_of U client v f
      in (case Drive client calls p of
            Inl err \<Rightarrow> (Inl err, calls @ [p])
          | Inr d \<Rightarrow>
              upload_loop U Drive client v fs
                (ups @ [\<lparr>up_id = data_id d, up_name = data_name d,
                         originalName = original_of f,
                         verified = isLikelyGoProName U (Some (original_of f)),
                         sizeBytes = fsize f\<rparr>])
                (calls @ [p])))"

subsection \<open>The handler\<close>

text \<open>
  What an invocation does: the response it returns, how often it read the clock, and the
  \<open>create\<close> calls it made, oldest first.
\<close>

record outcome =
  returned :: response
  dateReads :: nat
  driveCalls :: "create_params list"

definition handler ::
  "(nat \<Rightarrow> jsstring) \<Rightarrow> env \<Rightarrow> busboy \<Rightarrow> clock \<Rightarrow> drive \<Rightarrow> event \<Rightarrow> outcome" where
  "handler U e Busboy clk Drive ev =
     (if httpMethod ev = js ''OPTIONS''
      then \<lparr>returned = response204, dateReads = 0, driveCalls = []\<rparr>
      else if httpMethod ev \<noteq> js ''POST''
      then \<lparr>returned = response405, dateReads = 0, driveCalls = []\<rparr>
      else (case parseMultipart Busboy ev of
              Inl err \<Rightarrow> \<lparr>returned = response500 err, dateReads = 0, driveCalls = []\<rparr>
            | Inr (flds, fls) \<Rightarrow>
                if fls = []
                then \<lparr>returned = response400, dateReads = 0, driveCalls = []\<rparr>
                else (case getDriveClient e of
                        Inl err \<Rightarrow>
                          \<lparr>returned = response500 err, dateReads = 0, driveCalls = []\<rparr>
                      | Inr client \<Rightarrow>
                          (let v = bind_locals flds (clk 0)
                           in (case upload_loop U Drive client v fls [] [] of
                                 (Inl err, calls) \<Rightarrow>
                                   \<lparr>returned = response500 err, dateReads = 1,
                                    driveCalls = calls\<rparr>
                               | (Inr ups, calls) \<Rightarrow>
                                   \<lparr>returned = response200 ups, dateReads = 1,
                                    driveCalls = calls\<rparr>)))))"

section \<open>Notions used in the statements\<close>

text \<open>The file object, if any, that a part contributes to \<open>files\<close>.\<close>

fun file_of_part :: "part \<Rightarrow> file_part list" where
  "file_of_part (FieldPart k v) = []"
| "file_of_part (FilePart fname fnm mt chunks) =
     [\<lparr>fieldname = fname, filename = fnm, mimeType = mt,
       buffer = concat chunks, fsize = length (concat chunks)\<rparr>]"

definition files_of :: "part list \<Rightarrow> file_part list" where
  "files_of parts = concat (map file_of_part parts)"

definition fields_of :: "part list \<Rightarrow> (jsstring \<rightharpoonup> jsstring)" where
  "fields_of parts = fst (foldl on_part (Map.empty, []) parts)"

text \<open>
  Matching with the flag \<open>i\<close>, for patterns of ASCII atoms: a unit matches a literal when
  the two agree up to ASCII case. A unit outside ASCII has no ASCII case variant.
\<close>

fun atom_matches_i :: "atom \<Rightarrow> nat \<Rightarrow> bool" where
  "atom_matches_i (Lit l) c = (toUpperAscii c = toUpperAscii l)"
| "atom_matches_i Digit c = isDigit c"
| "atom_matches_i (OneOf ls) c = (toUpperAscii c \<in> toUpperAscii ` set ls)"

fun regex_test_i :: "atom list \<Rightarrow> jsstring \<Rightarrow> bool" where
  "regex_test_i [] s = (s = [])"
| "regex_test_i (a # as) [] = False"
| "regex_test_i (a # as) (c # cs) = (atom_matches_i a c \<and> regex_test_i as cs)"

text \<open>The two patterns of the specification: \<open>GOPR\<close>, four digits, \<open>.MP4\<close>; and \<open>G\<close>,
  \<open>H\<close> or \<open>O\<close>, six digits, \<open>.MP4\<close>.\<close>

definition spec_GOPR :: "atom list" where
  "spec_GOPR = map Lit (js ''GOPR'') @ replicate 4 Digit @ map Lit (js ''.MP4'')"

definition spec_GHO :: "atom list" where
  "spec_GHO = [Lit (of_char CHR ''G''), OneOf (js ''HO'')] @ replicate 6 Digit @ map Lit (js ''.MP4'')"

definition isKnownDeviceFilename :: "jsstring option \<Rightarrow> bool" where
  "isKnownDeviceFilename fnm =
     (case fnm of
        None \<Rightarrow> False
      | Some s \<Rightarrow> regex_test_i spec_GOPR s \<or> regex_test_i spec_GHO s)"

text \<open>
  The units that can occur in a string matching one of the two patterns of the source.
\<close>

definition pattern_unit :: "nat \<Rightarrow> bool" where
  "pattern_unit c = (isDigit c \<or> c \<in> set (js ''GOPRHM.''))"

text \<open>
  What the result depends on in the Unicode case tables: no unit outside ASCII has an
  upper-case form made of pattern units only.
\<close>

definition unicode_upper_ok :: "(nat \<Rightarrow> jsstring) \<Rightarrow> bool" where
  "unicode_upper_ok U = (\<forall>c\<ge>128. \<exists>u\<in>set (U c). \<not> pattern_unit u)"

text \<open>Equality of header names up to ASCII case.\<close>

definition same_header_name :: "jsstring \<Rightarrow> jsstring \<Rightarrow> bool" where
  "same_header_name a b = (map toUpperAscii a = map toUpperAscii b)"

text \<open>Atoms written in upper case, as those of the source's patterns are.\<close>

fun upper_atom :: "atom \<Rightarrow> bool" where
  "upper_atom (Lit l) = (toUpperAscii l = l)"
| "upper_atom Digit = True"
| "upper_atom (OneOf ls) = (\<forall>l\<in>set ls. toUpperAscii l = l)"

text \<open>
  The \<open>create\<close> calls the loop makes for the files of a request when none of them fails,
  in order.
\<close>

definition planned_calls ::
  "(nat \<Rightarrow> jsstring) \<Rightarrow> drive_client \<Rightarrow> (jsstring \<rightharpoonup> jsstring) \<Rightarrow> jsstring \<Rightarrow> file_part list
     \<Rightarrow> create_params list" where
  "planned_calls U client flds now fls = map (create_params_of U client (bind_locals flds now)) fls"

text \<open>The part of a remote name that stands for the camera code.\<close>

definition code_in_name :: "jsstring \<Rightarrow> jsstring" where
  "code_in_name code = (if filter isCodeChar code = [] then js ''NA'' else filter isCodeChar code)"

text \<open>The time stamp with every colon and every dot turned into a hyphen.\<close>

definition slug_of :: "jsstring \<Rightarrow> jsstring" where
  "slug_of now =
     map (\<lambda>c. if c = of_char CHR '':'' \<or> c = of_char CHR ''.'' then of_char CHR ''-'' else c) now"

section \<open>Concrete inputs\<close>

definition ex_upper :: "nat \<Rightarrow> jsstring" where
  "ex_upper c = [c]"

definition ex_env :: env where
  "ex_env =
     \<lparr>GDRIVE_CLIENT_EMAIL = Some (js ''uploader@example.iam.gserviceaccount.com''),
      GDRIVE_PRIVATE_KEY = Some (js ''BEGIN'' @ [92, 110] @ js ''abc'' @ [92, 110] @ js ''END''),
      GDRIVE_FOLDER_ID = Some (js ''folder-1'')\<rparr>"

definition ex_env_no_key :: env where
  "ex_env_no_key =
     \<lparr>GDRIVE_CLIENT_EMAIL = Some (js ''uploader@example.iam.gserviceaccount.com''),
      GDRIVE_PRIVATE_KEY = None,
      GDRIVE_FOLDER_ID = Some (js ''folder-1'')\<rparr>"

definition ex_post :: event where
  "ex_post =
     \<lparr>httpMethod = js ''POST'',
      headers = Some [js ''content-type'' \<mapsto> js ''multipart/form-data; boundary=x''],
      body = Some (js ''--x''),
      isBase64Encoded = False\<rparr>"

definition ex_post_text :: event where
  "ex_post_text =
     \<lparr>httpMethod = js ''POST'',
      headers = Some [js ''Content-Type'' \<mapsto> js ''text/plain''],
      body = Some (js ''hello''),
      isBase64Encoded = False\<rparr>"

definition ex_options :: event where
  "ex_options = \<lparr>httpMethod = js ''OPTIONS'', headers = None, body = None, isBase64Encoded = False\<rparr>"

definition ex_get :: event where
  "ex_get = \<lparr>httpMethod = js ''GET'', headers = None, body = None, isBase64Encoded = False\<rparr>"

text \<open>A decoder that emits the given parts whatever the body is.\<close>

definition ex_busboy :: "part list \<Rightarrow> busboy" where
  "ex_busboy parts h b base64 = Inr parts"

definition ex_clock :: clock where
  "ex_clock n = (if n = 0 then js ''2024-05-06T07:08:09.123Z'' else js ''2025-01-01T00:00:00.000Z'')"

text \<open>A backend that stores every file, and one that rejects the second call.\<close>

definition ex_drive :: drive where
  "ex_drive client calls p =
     Inr \<lparr>data_id = js ''id'' @ [48 + length calls], data_name = name (requestBody p)\<rparr>"

definition ex_drive_reject2 :: drive where
  "ex_drive_reject2 client calls p =
     (if length calls = 1 then Inl (Error (Some (js ''quota exceeded'')))
      else Inr \<lparr>data_id = js ''id'' @ [48 + length calls], data_name = name (requestBody p)\<rparr>)"

definition ex_fields_only :: "part list" where
  "ex_fields_only =
     [FieldPart (js ''camera_id'') (js ''7''), FieldPart (js ''location'') (js ''Oslo'')]"

definition ex_random_mov :: "part list" where
  "ex_random_mov = [FilePart (js ''clip'') (Some (js ''random.mov'')) None [[1, 2], [3]]]"

definition ex_empty_code :: "part list" where
  "ex_empty_code =
     [FieldPart (js ''camera_code'') [],
      FilePart (js ''clip'') (Some (js ''random.mov'')) None [[1, 2], [3]]]"

definition ex_cam07 :: "part list" where
  "ex_cam07 =
     [FieldPart (js ''camera_code'') (js ''cam 07!''),
      FilePart (js ''clip'') (Some (js ''GOPR0007.MP4'')) (Some (js ''video/mp4'')) [[1, 2], [3]]]"

definition ex_bad_code :: "part list" where
  "ex_bad_code =
     [FieldPart (js ''camera_code'') (js ''!?''),
      FilePart (js ''clip'') (Some (js ''a.mp4'')) None [[1]]]"

definition ex_three :: "part list" where
  "ex_three =
     [FilePart (js ''clip'') (Some (js ''a.mp4'')) None [[1]],
      FieldPart (js ''camera_code'') (js ''c1''),
      FilePart (js ''clip'') (Some (js ''b.mp4'')) None [[2, 3]],
      FilePart (js ''clip'') None None []]"

section \<open>Properties\<close>

subsection \<open>Filename classifier\<close>

lemma toUpperCase_ascii:
  "\<forall>c\<in>set s. c < 128 \<Longrightarrow> toUpperCase U s = map toUpperAscii s"
  by (induction s) (simp_all add: toUpperCase_def)

lemma isDigit_toUpperAscii: "isDigit (toUpperAscii c) = isDigit c"
  by (auto simp add: isDigit_def toUpperAscii_def)

lemma atom_matches_upper:
  "upper_atom a \<Longrightarrow> atom_matches a (toUpperAscii c) = atom_matches_i a c"
  by (cases a) (auto simp add: isDigit_toUpperAscii image_iff)

lemma regex_test_upper:
  "\<forall>a\<in>set p. upper_atom a \<Longrightarrow> regex_test p (map toUpperAscii s) = regex_test_i p s"
proof (induction p s rule: regex_test.induct)
  case (3 a as c cs)
  then show ?case by (simp add: atom_matches_upper)
qed simp_all

lemma regex_test_units:
  "regex_test p u \<Longrightarrow> \<forall>a\<in>set p. \<forall>c. atom_matches a c \<longrightarrow> Q c \<Longrightarrow> \<forall>c\<in>set u. Q c"
proof (induction p u rule: regex_test.induct)
  case (3 a as c cs)
  then show ?case by auto
qed simp_all

lemma regex_test_i_units:
  "regex_test_i p s \<Longrightarrow> \<forall>a\<in>set p. \<forall>c. atom_matches_i a c \<longrightarrow> Q c \<Longrightarrow> \<forall>c\<in>set s. Q c"
proof (induction p s rule: regex_test_i.induct)
  case (3 a as c cs)
  then show ?case by auto
qed simp_all

lemma toUpperCase_non_ascii:
  assumes "unicode_upper_ok U" and "c \<in> set s" and "128 \<le> c"
  shows "\<exists>u\<in>set (toUpperCase U s). \<not> pattern_unit u"
proof -
  from assms(1,3) obtain u where u: "u \<in> set (U c)" "\<not> pattern_unit u"
    unfolding unicode_upper_ok_def by blast
  from assms(2,3) u(1) have "u \<in> set (toUpperCase U s)"
    unfolding toUpperCase_def by (induction s) auto
  with u(2) show ?thesis by blast
qed

lemma re_GOPR_eq:
  "re_GOPR = [Lit 71, Lit 79, Lit 80, Lit 82, Digit, Digit, Digit, Digit,
              Lit 46, Lit 77, Lit 80, Lit 52]"
  by (simp add: re_GOPR_def js_def)

lemma re_GH_eq:
  "re_GH = [Lit 71, OneOf [72, 79], Digit, Digit, Digit, Digit, Digit, Digit,
            Lit 46, Lit 77, Lit 80, Lit 52]"
  by (simp add: re_GH_def js_def)

lemma spec_GOPR_eq: "spec_GOPR = re_GOPR"
  by (simp add: spec_GOPR_def re_GOPR_def eval_nat_numeral)

text \<open>Two digits and then four are six digits.\<close>

lemma spec_GHO_eq: "spec_GHO = re_GH"
  by (simp add: spec_GHO_def re_GH_def eval_nat_numeral)

lemma re_upper: "\<forall>a\<in>set re_GOPR. upper_atom a" "\<forall>a\<in>set re_GH. upper_atom a"
  by (simp_all add: re_GOPR_eq re_GH_eq toUpperAscii_def)

lemma re_units:
  "\<forall>a\<in>set re_GOPR. \<forall>c. atom_matches a c \<longrightarrow> pattern_unit c"
  "\<forall>a\<in>set re_GH. \<forall>c. atom_matches a c \<longrightarrow> pattern_unit c"
  by (simp_all add: re_GOPR_eq re_GH_eq pattern_unit_def js_def isDigit_def)

lemma re_ascii:
  "\<forall>a\<in>set re_GOPR. \<forall>c. atom_matches_i a c \<longrightarrow> c < 128"
  "\<forall>a\<in>set re_GH. \<forall>c. atom_matches_i a c \<longrightarrow> c < 128"
  by (auto simp add: re_GOPR_eq re_GH_eq toUpperAscii_def isDigit_def split: if_splits)

text \<open>
  Upper-casing and then matching is matching up to case: on an ASCII string by the
  pattern being in upper case, and a string with a unit outside ASCII matches neither way.
\<close>

lemma test_agree:
  assumes U: "unicode_upper_ok U"
    and p: "\<forall>a\<in>set p. upper_atom a"
      "\<forall>a\<in>set p. \<forall>c. atom_matches a c \<longrightarrow> pattern_unit c"
      "\<forall>a\<in>set p. \<forall>c. atom_matches_i a c \<longrightarrow> c < 128"
  shows "regex_test p (toUpperCase U s) = regex_test_i p s"
proof (cases "\<forall>c\<in>set s. c < 128")
  case True
  then show ?thesis by (simp add: toUpperCase_ascii regex_test_upper p(1))
next
  case False
  then obtain c where c: "c \<in> set s" "128 \<le> c" by (auto simp add: not_less)
  from toUpperCase_non_ascii [OF U c] obtain u
    where u: "u \<in> set (toUpperCase U s)" "\<not> pattern_unit u" by blast
  have "\<not> regex_test p (toUpperCase U s)"
    using regex_test_units [of p "toUpperCase U s" pattern_unit] p(2) u by blast
  moreover have "\<not> regex_test_i p s"
  proof
    assume "regex_test_i p s"
    from regex_test_i_units [OF this p(3)] c show False by auto
  qed
  ultimately show ?thesis by simp
qed

lemma isLikelyGoProName_spec:
  assumes "unicode_upper_ok U"
  shows "isLikelyGoProName U fnm = isKnownDeviceFilename fnm"
proof (cases fnm)
  case None
  then show ?thesis by (simp add: isLikelyGoProName_def isKnownDeviceFilename_def)
next
  case (Some s)
  have e: "\<not> regex_test_i re_GOPR []" "\<not> regex_test_i re_GH []"
    by (simp_all add: re_GOPR_eq re_GH_eq)
  show ?thesis
    using Some e
    by (auto simp add: isLikelyGoProName_def isKnownDeviceFilename_def spec_GOPR_eq spec_GHO_eq
        test_agree [OF assms re_upper(1) re_units(1) re_ascii(1)]
        test_agree [OF assms re_upper(2) re_units(2) re_ascii(2)])
qed

text \<open>On a file name of ASCII units the case tables play no part.\<close>

lemma isLikelyGoProName_ascii:
  assumes "\<forall>c\<in>set s. c < 128"
  shows "isLikelyGoProName U (Some s) = isKnownDeviceFilename (Some s)"
proof -
  have e: "\<not> regex_test_i re_GOPR []" "\<not> regex_test_i re_GH []"
    by (simp_all add: re_GOPR_eq re_GH_eq)
  have "regex_test re_GOPR (toUpperCase U s) = regex_test_i re_GOPR s"
    "regex_test re_GH (toUpperCase U s) = regex_test_i re_GH s"
    using assms by (simp_all add: toUpperCase_ascii regex_test_upper re_upper)
  with e show ?thesis
    by (auto simp add: isLikelyGoProName_def isKnownDeviceFilename_def spec_GOPR_eq spec_GHO_eq)
qed

lemma near_misses:
  "\<not> isKnownDeviceFilename None"
  "\<not> isKnownDeviceFilename (Some [])"
  "\<not> isKnownDeviceFilename (Some (js ''GOPR123.MP4''))"
  "\<not> isKnownDeviceFilename (Some (js ''GX010001.MP4''))"
  by (simp_all add: isKnownDeviceFilename_def spec_GOPR_eq spec_GHO_eq re_GOPR_eq re_GH_eq
      js_def toUpperAscii_def isDigit_def)

lemma unicode_upper_ok_id: "unicode_upper_ok (\<lambda>c. [c])"
  by (auto simp add: unicode_upper_ok_def pattern_unit_def isDigit_def js_def)

text \<open>
  Claim C1. Whatever the Unicode case tables say outside ASCII, as long as they give no
  unit outside ASCII an upper-case form spelt with the units of the patterns alone, the
  classifier accepts a file name exactly when, up to ASCII case, the name is \<open>GOPR\<close>, four
  digits and \<open>.MP4\<close>, or \<open>G\<close>, \<open>H\<close> or \<open>O\<close>, six digits and \<open>.MP4\<close>. It rejects a missing
  name, the empty name and the near misses \<open>GOPR123.MP4\<close> and \<open>GX010001.MP4\<close>. The
  classifier is a total function, so it returns on every input.
\<close>

theorem isLikelyGoProName_correct:
  assumes "unicode_upper_ok U"
  shows "isLikelyGoProName U fnm = isKnownDeviceFilename fnm
    \<and> \<not> isLikelyGoProName U None
    \<and> \<not> isLikelyGoProName U (Some [])
    \<and> \<not> isLikelyGoProName U (Some (js ''GOPR123.MP4''))
    \<and> \<not> isLikelyGoProName U (Some (js ''GX010001.MP4''))"
  using assms by (simp add: isLikelyGoProName_spec near_misses)

theorem isLikelyGoProName_correct_witness:
  "unicode_upper_ok (\<lambda>c. [c])
   \<and> isLikelyGoProName (\<lambda>c. [c]) (Some (js ''gopr0007.mp4''))
   \<and> isKnownDeviceFilename (Some (js ''gopr0007.mp4''))
   \<and> \<not> isLikelyGoProName (\<lambda>c. [c]) (Some (js ''GX010001.MP4''))"
proof -
  have k: "isKnownDeviceFilename (Some (js ''gopr0007.mp4''))"
    by (simp add: isKnownDeviceFilename_def spec_GOPR_eq re_GOPR_eq js_def toUpperAscii_def
        isDigit_def)
  from isLikelyGoProName_correct [OF unicode_upper_ok_id, of "Some (js ''gopr0007.mp4'')"] k
  show ?thesis by (simp add: unicode_upper_ok_id)
qed

subsection \<open>Evaluating the model\<close>

lemmas model_defs = handler_def parseMultipart_def contentType_of_def headers_of_def js_or_def
  getDriveClient_def truthy_def bind_locals_def create_params_of_def original_of_def newName_of_def
  descriptionLines_of_def replace_class_def isCodeChar_def Let_def
  response200_def response204_def response400_def response405_def response500_def

lemmas classifier_defs = isLikelyGoProName_def toUpperCase_def toUpperAscii_def re_GOPR_def
  re_GH_def isDigit_def

lemmas ex_defs = ex_upper_def ex_env_def ex_env_no_key_def ex_post_def ex_post_text_def
  ex_options_def ex_get_def ex_busboy_def ex_clock_def ex_drive_def ex_drive_reject2_def
  ex_fields_only_def ex_random_mov_def ex_empty_code_def ex_cam07_def ex_bad_code_def ex_three_def

lemma POST_not_OPTIONS: "js ''POST'' \<noteq> js ''OPTIONS''"
  by (simp add: js_def)

subsection \<open>Multipart decoder\<close>

lemma str_includes_sublist: "str_includes s t = sublist t s"
  by (induction s) (auto simp add: sublist_Cons_right)

text \<open>The decoder keeps the file parts in the order of the body.\<close>

lemma foldl_on_part_files: "snd (foldl on_part acc parts) = snd acc @ files_of parts"
proof (induction parts arbitrary: acc)
  case Nil
  then show ?case by (simp add: files_of_def)
next
  case (Cons p ps)
  obtain flds fls where acc: "acc = (flds, fls)" by (cases acc)
  show ?case
    by (cases p) (simp_all add: Cons.IH acc files_of_def Let_def)
qed

lemma foldl_on_part_eq:
  "foldl on_part (Map.empty, []) parts = (fields_of parts, files_of parts)"
  using foldl_on_part_files [of "(Map.empty, [])" parts]
  by (simp add: fields_of_def prod_eq_iff)

lemma parseMultipart_ok:
  assumes "str_includes (contentType_of ev) (js ''multipart/form-data'')"
    and "Busboy (headers_of ev) (js_or (body ev) []) (isBase64Encoded ev) = Inr parts"
  shows "parseMultipart Busboy ev = Inr (fields_of parts, files_of parts)"
  using assms by (simp add: parseMultipart_def foldl_on_part_eq)

lemma files_of_no_files:
  "(\<forall>p\<in>set parts. \<exists>k v. p = FieldPart k v) \<Longrightarrow> files_of parts = []"
  by (induction parts) (auto simp add: files_of_def)

lemma same_header_name_CT: "same_header_name (js ''Content-Type'') (js ''content-type'')"
  by (simp add: same_header_name_def js_def toUpperAscii_def)

lemma same_header_name_ct: "same_header_name (js ''content-type'') (js ''content-type'')"
  by (simp add: same_header_name_def)

lemma ex_post_contentType:
  "str_includes (contentType_of ex_post) (js ''multipart/form-data'')"
  by (simp add: contentType_of_def headers_of_def js_or_def ex_post_def js_def)

text \<open>
  Claim C7. Take the headers of a request (the empty map when the event has none). If
  every header whose name is \<open>content-type\<close> up to case has a value that does not contain
  \<open>multipart/form-data\<close>, which includes the case that there is no such header, then the
  decoder fails with the unsupported-content-type error. The result is the same for every
  behaviour of the multipart parser: no part is read.
\<close>

theorem parseMultipart_unsupported:
  assumes "\<forall>k v. headers_of ev k = Some v \<and> same_header_name k (js ''content-type'')
             \<longrightarrow> \<not> sublist (js ''multipart/form-data'') v"
  shows "parseMultipart Busboy ev =
     Inl (Error (Some (js ''Unsupported content type. Expected multipart/form-data.'')))"
proof -
  have mp: "\<not> str_includes [] (js ''multipart/form-data'')" by (simp add: js_def)
  have a: "\<And>v. headers_of ev (js ''content-type'') = Some v
      \<Longrightarrow> \<not> str_includes v (js ''multipart/form-data'')"
    using assms same_header_name_ct by (simp add: str_includes_sublist)
  have b: "\<And>v. headers_of ev (js ''Content-Type'') = Some v
      \<Longrightarrow> \<not> str_includes v (js ''multipart/form-data'')"
    using assms same_header_name_CT by (simp add: str_includes_sublist)
  have "\<not> str_includes (contentType_of ev) (js ''multipart/form-data'')"
    using a b mp by (simp add: contentType_of_def js_or_def split: option.splits)
  then show ?thesis by (simp add: parseMultipart_def)
qed

theorem parseMultipart_unsupported_witness:
  "parseMultipart (ex_busboy ex_cam07) ex_post_text =
     Inl (Error (Some (js ''Unsupported content type. Expected multipart/form-data.'')))"
proof -
  have v: "\<not> sublist (js ''multipart/form-data'') (js ''text/plain'')"
    unfolding str_includes_sublist [symmetric] by (simp add: js_def)
  have "\<forall>k v. headers_of ex_post_text k = Some v \<and> same_header_name k (js ''content-type'')
             \<longrightarrow> \<not> sublist (js ''multipart/form-data'') v"
    using v by (simp add: headers_of_def ex_post_text_def split: if_splits)
  from parseMultipart_unsupported [OF this] show ?thesis .
qed

text \<open>
  The decoder reads the header under two spellings of its name only: a request that sends
  the multipart content type under the name \<open>CONTENT-TYPE\<close> is rejected as well.
\<close>

lemma parseMultipart_other_spelling:
  "parseMultipart Busboy
     \<lparr>httpMethod = js ''POST'',
      headers = Some [js ''CONTENT-TYPE'' \<mapsto> js ''multipart/form-data; boundary=x''],
      body = Some (js ''--x''), isBase64Encoded = False\<rparr> =
     Inl (Error (Some (js ''Unsupported content type. Expected multipart/form-data.'')))"
  by (simp add: parseMultipart_def contentType_of_def headers_of_def js_or_def js_def)

subsection \<open>Method check and empty uploads\<close>

text \<open>
  Claim C8. A request with method \<open>OPTIONS\<close> is answered with status 204, the three CORS
  headers and an empty body. A request whose method is neither \<open>OPTIONS\<close> nor \<open>POST\<close> is
  answered with status 405 and the error \<open>Method Not Allowed\<close>. For a method other than
  \<open>POST\<close> the outcome is the same whatever the environment, the multipart parser, the
  clock and the storage backend are, so nothing is decoded; for \<open>POST\<close> a failure of the
  decoder becomes the response.
\<close>

theorem handler_method_check:
  "(httpMethod ev = js ''OPTIONS'' \<longrightarrow>
      handler U e Busboy clk Drive ev =
        \<lparr>returned = \<lparr>statusCode = 204,
           resp_headers = [(js ''Access-Control-Allow-Origin'', js ''*''),
                           (js ''Access-Control-Allow-Methods'', js ''POST, OPTIONS''),
                           (js ''Access-Control-Allow-Headers'', js ''Content-Type'')],
           resp_body = EmptyBody\<rparr>,
         dateReads = 0, driveCalls = []\<rparr>)
   \<and> (httpMethod ev \<noteq> js ''OPTIONS'' \<and> httpMethod ev \<noteq> js ''POST'' \<longrightarrow>
      handler U e Busboy clk Drive ev =
        \<lparr>returned = \<lparr>statusCode = 405,
           resp_headers = [(js ''Content-Type'', js ''application/json'')],
           resp_body = ErrorBody (js ''Method Not Allowed'')\<rparr>,
         dateReads = 0, driveCalls = []\<rparr>)
   \<and> (httpMethod ev \<noteq> js ''POST'' \<longrightarrow>
      handler U e Busboy clk Drive ev = handler U' e' Busboy' clk' Drive' ev)
   \<and> (httpMethod ev = js ''POST'' \<longrightarrow>
      (\<forall>err. parseMultipart Busboy ev = Inl err \<longrightarrow>
         returned (handler U e Busboy clk Drive ev) = response500 err))"
  using POST_not_OPTIONS by (simp add: handler_def response204_def response405_def)

theorem handler_method_check_witness:
  "statusCode (returned (handler ex_upper ex_env (ex_busboy ex_cam07) ex_clock ex_drive ex_options))
     = 204
   \<and> resp_body (returned (handler ex_upper ex_env (ex_busboy ex_cam07) ex_clock ex_drive ex_get))
     = ErrorBody (js ''Method Not Allowed'')"
proof -
  have o: "httpMethod ex_options = js ''OPTIONS''" by (simp add: ex_options_def)
  have g: "httpMethod ex_get \<noteq> js ''OPTIONS'' \<and> httpMethod ex_get \<noteq> js ''POST''"
    by (simp add: ex_get_def js_def)
  from handler_method_check [of ex_options ex_upper ex_env "ex_busboy ex_cam07" ex_clock ex_drive] o
    handler_method_check [of ex_get ex_upper ex_env "ex_busboy ex_cam07" ex_clock ex_drive] g
  show ?thesis by simp
qed

text \<open>
  Claim C4. A \<open>POST\<close> request whose content type is accepted and whose body the parser
  decodes into parts none of which is a file part, however many field parts there are, is
  answered with status 400 and the error \<open>No video files found in upload.\<close>; the clock is
  not read and the storage backend is not called.
\<close>

theorem handler_no_files:
  assumes "httpMethod ev = js ''POST''"
    and "str_includes (contentType_of ev) (js ''multipart/form-data'')"
    and "Busboy (headers_of ev) (js_or (body ev) []) (isBase64Encoded ev) = Inr parts"
    and "\<forall>p\<in>set parts. \<exists>k v. p = FieldPart k v"
  shows "handler U e Busboy clk Drive ev =
     \<lparr>returned = \<lparr>statusCode = 400,
                   resp_headers = [(js ''Content-Type'', js ''application/json'')],
                   resp_body = ErrorBody (js ''No video files found in upload.'')\<rparr>,
      dateReads = 0, driveCalls = []\<rparr>"
  using assms(1) parseMultipart_ok [of ev Busboy parts] assms(2,3)
    files_of_no_files [OF assms(4)] POST_not_OPTIONS
  by (simp add: handler_def response400_def)

theorem handler_no_files_witness:
  "statusCode (returned (handler ex_upper ex_env (ex_busboy ex_fields_only) ex_clock ex_drive ex_post))
     = 400
   \<and> resp_body (returned (handler ex_upper ex_env (ex_busboy ex_fields_only) ex_clock ex_drive ex_post))
     = ErrorBody (js ''No video files found in upload.'')"
proof -
  have m: "httpMethod ex_post = js ''POST''" by (simp add: ex_post_def)
  have b: "ex_busboy ex_fields_only (headers_of ex_post) (js_or (body ex_post) [])
      (isBase64Encoded ex_post) = Inr ex_fields_only"
    by (simp add: ex_busboy_def)
  have f: "\<forall>p\<in>set ex_fields_only. \<exists>k v. p = FieldPart k v"
    by (simp add: ex_fields_only_def)
  from handler_no_files [where ev = ex_post and Busboy = "ex_busboy ex_fields_only"
      and parts = ex_fields_only and U = ex_upper and e = ex_env and clk = ex_clock
      and Drive = ex_drive] m ex_post_contentType b f
  show ?thesis by simp
qed

subsection \<open>The loop over the files\<close>

text \<open>The calls made are an initial segment of the planned ones.\<close>

lemma upload_loop_calls:
  "\<exists>n\<le>length fs. snd (upload_loop U Drive client v fs ups calls) =
      calls @ take n (map (create_params_of U client v) fs)"
proof (induction fs arbitrary: ups calls)
  case Nil
  then show ?case by simp
next
  case (Cons f fs)
  let ?p = "create_params_of U client v f"
  show ?case
  proof (cases "Drive client calls ?p")
    case (Inl err)
    then have "snd (upload_loop U Drive client v (f # fs) ups calls) =
        calls @ take (Suc 0) (map (create_params_of U client v) (f # fs))"
      by simp
    then show ?thesis by (intro exI [of _ "Suc 0"]) simp
  next
    case (Inr d)
    let ?ups = "ups @ [\<lparr>up_id = data_id d, up_name = data_name d,
                         originalName = original_of f,
                         verified = isLikelyGoProName U (Some (original_of f)),
                         sizeBytes = fsize f\<rparr>]"
    from Cons.IH [of ?ups "calls @ [?p]"] obtain n where n: "n \<le> length fs"
      "snd (upload_loop U Drive client v fs ?ups (calls @ [?p])) =
         (calls @ [?p]) @ take n (map (create_params_of U client v) fs)" by blast
    from Inr n(2) have "snd (upload_loop U Drive client v (f # fs) ups calls) =
        calls @ take (Suc n) (map (create_params_of U client v) (f # fs))"
      by simp
    with n(1) show ?thesis by (intro exI [of _ "Suc n"]) simp
  qed
qed

text \<open>A loop that ends normally has added one entry for every file.\<close>

lemma upload_loop_length:
  "fst (upload_loop U Drive client v fs ups calls) = Inr res \<Longrightarrow>
     length res = length ups + length fs"
proof (induction fs arbitrary: ups calls)
  case Nil
  then show ?case by simp
next
  case (Cons f fs)
  show ?case
  proof (cases "Drive client calls (create_params_of U client v f)")
    case (Inl err)
    with Cons.prems show ?thesis by simp
  next
    case (Inr d)
    with Cons.prems Cons.IH show ?thesis by fastforce
  qed
qed

text \<open>The first rejected call ends the loop; the calls up to it are the ones made.\<close>

lemma upload_loop_fail:
  assumes "k < length fs"
    and "\<forall>i<k. \<exists>d. Drive client (calls @ take i (map (create_params_of U client v) fs))
            (create_params_of U client v (fs ! i)) = Inr d"
    and "Drive client (calls @ take k (map (create_params_of U client v) fs))
            (create_params_of U client v (fs ! k)) = Inl err"
  shows "upload_loop U Drive client v fs ups calls =
     (Inl err, calls @ take (Suc k) (map (create_params_of U client v) fs))"
  using assms
proof (induction fs arbitrary: k ups calls)
  case Nil
  then show ?case by simp
next
  case (Cons f fs)
  let ?p = "create_params_of U client v f"
  show ?case
  proof (cases k)
    case 0
    with Cons.prems(3) show ?thesis by simp
  next
    case (Suc j)
    from Cons.prems(2) Suc obtain d where d: "Drive client calls ?p = Inr d"
      by (auto dest: spec [of _ 0])
    have j: "j < length fs" using Cons.prems(1) Suc by simp
    have ok: "\<forall>i<j. \<exists>d. Drive client ((calls @ [?p]) @ take i (map (create_params_of U client v) fs))
            (create_params_of U client v (fs ! i)) = Inr d"
    proof (intro allI impI)
      fix i assume "i < j"
      then have "Suc i < k" using Suc by simp
      with Cons.prems(2) show "\<exists>d. Drive client ((calls @ [?p]) @ take i (map (create_params_of U client v) fs))
            (create_params_of U client v (fs ! i)) = Inr d"
        by (auto dest: spec [of _ "Suc i"])
    qed
    have bad: "Drive client ((calls @ [?p]) @ take j (map (create_params_of U client v) fs))
            (create_params_of U client v (fs ! j)) = Inl err"
      using Cons.prems(3) Suc by simp
    from Cons.IH [OF j ok bad] d Suc show ?thesis by simp
  qed
qed

text \<open>When no call is rejected, the loop adds the entries of all files, in order.\<close>

lemma upload_loop_ok:
  assumes "\<forall>i<length fs. \<exists>d. Drive client (calls @ take i (map (create_params_of U client v) fs))
            (create_params_of U client v (fs ! i)) = Inr d"
  shows "\<exists>new. upload_loop U Drive client v fs ups calls =
            (Inr (ups @ new), calls @ map (create_params_of U client v) fs)
        \<and> length new = length fs
        \<and> (\<forall>i<length fs.
              Drive client (calls @ take i (map (create_params_of U client v) fs))
                (create_params_of U client v (fs ! i))
                = Inr \<lparr>data_id = up_id (new ! i), data_name = up_name (new ! i)\<rparr>
              \<and> originalName (new ! i) = original_of (fs ! i)
              \<and> verified (new ! i) = isLikelyGoProName U (Some (original_of (fs ! i)))
              \<and> sizeBytes (new ! i) = fsize (fs ! i))"
  using assms
proof (induction fs arbitrary: ups calls)
  case Nil
  then show ?case by simp
next
  case (Cons f fs)
  let ?P = "create_params_of U client v"
  from Cons.prems obtain d where d: "Drive client calls (?P f) = Inr d"
    by (auto dest: spec [of _ 0])
  let ?u = "\<lparr>up_id = data_id d, up_name = data_name d,
             originalName = original_of f,
             verified = isLikelyGoProName U (Some (original_of f)),
             sizeBytes = fsize f\<rparr>"
  have ok: "\<forall>i<length fs. \<exists>d. Drive client ((calls @ [?P f]) @ take i (map ?P fs))
            (?P (fs ! i)) = Inr d"
  proof (intro allI impI)
    fix i assume "i < length fs"
    then have "Suc i < length (f # fs)" by simp
    with Cons.prems show "\<exists>d. Drive client ((calls @ [?P f]) @ take i (map ?P fs))
            (?P (fs ! i)) = Inr d"
      by (auto dest: spec [of _ "Suc i"])
  qed
  from Cons.IH [OF ok, of "ups @ [?u]"] obtain new where new:
    "upload_loop U Drive client v fs (ups @ [?u]) (calls @ [?P f]) =
       (Inr ((ups @ [?u]) @ new), (calls @ [?P f]) @ map ?P fs)"
    "length new = length fs"
    "\<forall>i<length fs.
        Drive client ((calls @ [?P f]) @ take i (map ?P fs)) (?P (fs ! i))
          = Inr \<lparr>data_id = up_id (new ! i), data_name = up_name (new ! i)\<rparr>
        \<and> originalName (new ! i) = original_of (fs ! i)
        \<and> verified (new ! i) = isLikelyGoProName U (Some (original_of (fs ! i)))
        \<and> sizeBytes (new ! i) = fsize (fs ! i)"
    by blast
  have "upload_loop U Drive client v (f # fs) ups calls =
      (Inr (ups @ (?u # new)), calls @ map ?P (f # fs))"
    using d new(1) by simp
  moreover have "length (?u # new) = length (f # fs)" using new(2) by simp
  moreover have "\<forall>i<length (f # fs).
        Drive client (calls @ take i (map ?P (f # fs))) (?P ((f # fs) ! i))
          = Inr \<lparr>data_id = up_id ((?u # new) ! i), data_name = up_name ((?u # new) ! i)\<rparr>
        \<and> originalName ((?u # new) ! i) = original_of ((f # fs) ! i)
        \<and> verified ((?u # new) ! i) = isLikelyGoProName U (Some (original_of ((f # fs) ! i)))
        \<and> sizeBytes ((?u # new) ! i) = fsize ((f # fs) ! i)"
  proof (intro allI impI)
    fix i assume i: "i < length (f # fs)"
    show "Drive client (calls @ take i (map ?P (f # fs))) (?P ((f # fs) ! i))
          = Inr \<lparr>data_id = up_id ((?u # new) ! i), data_name = up_name ((?u # new) ! i)\<rparr>
        \<and> originalName ((?u # new) ! i) = original_of ((f # fs) ! i)
        \<and> verified ((?u # new) ! i) = isLikelyGoProName U (Some (original_of ((f # fs) ! i)))
        \<and> sizeBytes ((?u # new) ! i) = fsize ((f # fs) ! i)"
    proof (cases i)
      case 0
      then show ?thesis using d by simp
    next
      case (Suc j)
      with i have "j < length fs" by simp
      with new(3) Suc show ?thesis by simp
    qed
  qed
  ultimately show ?case by blast
qed

subsection \<open>The handler on a request with files\<close>

lemma handler_post:
  assumes "httpMethod ev = js ''POST''"
    and "parseMultipart Busboy ev = Inr (flds, fls)"
    and "fls \<noteq> []"
    and "getDriveClient e = Inr client"
  shows "handler U e Busboy clk Drive ev =
    (case upload_loop U Drive client (bind_locals flds (clk 0)) fls [] [] of
       (Inl err, calls) \<Rightarrow> \<lparr>returned = response500 err, dateReads = 1, driveCalls = calls\<rparr>
     | (Inr ups, calls) \<Rightarrow> \<lparr>returned = response200 ups, dateReads = 1, driveCalls = calls\<rparr>)"
  using assms by (simp add: handler_def POST_not_OPTIONS)

text \<open>Every call the handler makes is a planned call of a file of the request.\<close>

lemma handler_calls:
  "driveCalls (handler U e Busboy clk Drive ev) = [] \<or>
   (\<exists>flds fls client n. parseMultipart Busboy ev = Inr (flds, fls) \<and> getDriveClient e = Inr client
      \<and> n \<le> length fls
      \<and> driveCalls (handler U e Busboy clk Drive ev) = take n (planned_calls U client flds (clk 0) fls))"
proof (cases "httpMethod ev = js ''POST''")
  case False
  then show ?thesis by (simp add: handler_def)
next
  case POST: True
  show ?thesis
  proof (cases "parseMultipart Busboy ev")
    case (Inl err)
    with POST show ?thesis by (simp add: handler_def POST_not_OPTIONS)
  next
    case (Inr r)
    obtain flds fls where r: "r = (flds, fls)" by (cases r)
    show ?thesis
    proof (cases "getDriveClient e")
      case (Inl err)
      with POST Inr r show ?thesis by (simp add: handler_def POST_not_OPTIONS)
    next
      case client: (Inr client)
      let ?v = "bind_locals flds (clk 0)"
      from upload_loop_calls [of fls U Drive client ?v "[]" "[]"] obtain n where
        n: "n \<le> length fls" "snd (upload_loop U Drive client ?v fls [] []) =
          take n (planned_calls U client flds (clk 0) fls)"
        by (auto simp add: planned_calls_def)
      have "driveCalls (handler U e Busboy clk Drive ev) = [] \<or>
         driveCalls (handler U e Busboy clk Drive ev) = take n (planned_calls U client flds (clk 0) fls)"
        using POST Inr r client n(2)
        by (auto simp add: handler_def POST_not_OPTIONS Let_def split: prod.splits sum.splits)
      with Inr r client n(1) show ?thesis by blast
    qed
  qed
qed

lemma handler_dateReads: "dateReads (handler U e Busboy clk Drive ev) \<le> 1"
  by (simp add: handler_def Let_def split: sum.splits prod.splits)

subsection \<open>Concrete requests\<close>

lemma ex_env_client:
  "getDriveClient ex_env =
     Inr \<lparr>client_email = js ''uploader@example.iam.gserviceaccount.com'',
          private_key = js ''BEGIN'' @ [10] @ js ''abc'' @ [10] @ js ''END'',
          scopes = [js ''https://www.googleapis.com/auth/drive.file''],
          folderId = js ''folder-1''\<rparr>"
  by (simp add: getDriveClient_def ex_env_def truthy_def js_or_def js_def)

lemma ex_post_parse:
  "parseMultipart (ex_busboy parts) ex_post = Inr (fields_of parts, files_of parts)"
  by (rule parseMultipart_ok [OF ex_post_contentType]) (simp add: ex_busboy_def)

lemma ex_post_method: "httpMethod ex_post = js ''POST''"
  by (simp add: ex_post_def)

subsection \<open>All files stored, or none reported\<close>

text \<open>
  Claim C5. Take a \<open>POST\<close> request that the decoder turns into fields and a list of
  \<open>N\<close> files, \<open>N\<close> at least 1, with the storage client built, and let every \<open>create\<close>
  call of the run be answered with data. Then the response has status 200, the two headers
  of the success path, and a body with \<open>ok: true\<close>, the fixed message, \<open>uploadedCount\<close>
  equal to \<open>N\<close> and \<open>N\<close> uploads. The \<open>i\<close>-th upload belongs to the \<open>i\<close>-th file: its id
  and name are those the backend returned for that file's call, its original name is the
  file's name (\<open>clip.mp4\<close> if the file has none), \<open>verified\<close> is the classifier's verdict
  on that name, and \<open>sizeBytes\<close> is the file's size. One call was made per file, in order.
\<close>

theorem handler_all_uploaded:
  assumes "httpMethod ev = js ''POST''"
    and "parseMultipart Busboy ev = Inr (flds, fls)"
    and "fls \<noteq> []"
    and "getDriveClient e = Inr client"
    and "\<forall>i<length fls. \<exists>d.
           Drive client (take i (planned_calls U client flds (clk 0) fls))
             (planned_calls U client flds (clk 0) fls ! i) = Inr d"
  shows "\<exists>ups.
      returned (handler U e Busboy clk Drive ev) =
        \<lparr>statusCode = 200,
         resp_headers = [(js ''Content-Type'', js ''application/json''),
                         (js ''Access-Control-Allow-Origin'', js ''*'')],
         resp_body = OkBody
           (js ''Upload complete. Your Yellow Camera clip has been saved. You can now pass the camera on.'')
           (length fls) ups\<rparr>
      \<and> length ups = length fls
      \<and> (\<forall>i<length fls.
            Drive client (take i (planned_calls U client flds (clk 0) fls))
              (planned_calls U client flds (clk 0) fls ! i)
              = Inr \<lparr>data_id = up_id (ups ! i), data_name = up_name (ups ! i)\<rparr>
            \<and> originalName (ups ! i) = js_or (filename (fls ! i)) (js ''clip.mp4'')
            \<and> verified (ups ! i) = isLikelyGoProName U (Some (originalName (ups ! i)))
            \<and> sizeBytes (ups ! i) = fsize (fls ! i))
      \<and> driveCalls (handler U e Busboy clk Drive ev) = planned_calls U client flds (clk 0) fls"
proof -
  let ?v = "bind_locals flds (clk 0)"
  let ?P = "create_params_of U client ?v"
  have ok: "\<forall>i<length fls. \<exists>d. Drive client ([] @ take i (map ?P fls)) (?P (fls ! i)) = Inr d"
    using assms(5) by (simp add: planned_calls_def)
  from upload_loop_ok [where Drive = Drive and client = client and U = U and v = ?v
      and fs = fls and calls = "[]" and ups = "[]"] ok
  obtain ups where ups:
    "upload_loop U Drive client ?v fls [] [] = (Inr ups, map ?P fls)"
    "length ups = length fls"
    "\<forall>i<length fls.
        Drive client ([] @ take i (map ?P fls)) (?P (fls ! i))
          = Inr \<lparr>data_id = up_id (ups ! i), data_name = up_name (ups ! i)\<rparr>
        \<and> originalName (ups ! i) = original_of (fls ! i)
        \<and> verified (ups ! i) = isLikelyGoProName U (Some (original_of (fls ! i)))
        \<and> sizeBytes (ups ! i) = fsize (fls ! i)"
    by auto
  have h: "handler U e Busboy clk Drive ev =
      \<lparr>returned = response200 ups, dateReads = 1, driveCalls = map ?P fls\<rparr>"
    using handler_post [OF assms(1-4)] ups(1) by simp
  show ?thesis
    using h ups(2,3)
    by (intro exI [of _ ups]) (simp add: response200_def planned_calls_def original_of_def)
qed

theorem handler_all_uploaded_witness:
  "statusCode (returned (handler ex_upper ex_env (ex_busboy ex_three) ex_clock ex_drive ex_post)) = 200
   \<and> length (driveCalls (handler ex_upper ex_env (ex_busboy ex_three) ex_clock ex_drive ex_post)) = 3"
proof -
  have f: "files_of ex_three \<noteq> []" by (simp add: files_of_def ex_three_def)
  have n: "length (files_of ex_three) = 3" by (simp add: files_of_def ex_three_def)
  have d: "\<forall>i<length (files_of ex_three). \<exists>d.
      ex_drive (the_client) (take i (planned_calls ex_upper the_client (fields_of ex_three) (ex_clock 0) (files_of ex_three)))
        (planned_calls ex_upper the_client (fields_of ex_three) (ex_clock 0) (files_of ex_three) ! i) = Inr d"
    for the_client
    by (simp add: ex_drive_def)
  from handler_all_uploaded [where ev = ex_post and Busboy = "ex_busboy ex_three"
      and flds = "fields_of ex_three" and fls = "files_of ex_three" and e = ex_env
      and Drive = ex_drive and U = ex_upper and clk = ex_clock, OF ex_post_method ex_post_parse f
      ex_env_client d] n
  show ?thesis by (auto simp add: planned_calls_def)
qed

text \<open>
  Claim C6. Take a \<open>POST\<close> request with files and the storage client built. If the calls
  for the first \<open>k\<close> files are answered with data and the call for the next file is
  rejected, the handler has made exactly these \<open>k + 1\<close> calls, so no later file is
  uploaded, and it returns one response: status 500 with an error body carrying the
  message of the rejection (or the fixed fallback text), without any list of uploads.
  Moreover, whatever the request, a response body that lists uploads belongs to a status
  200 response and lists as many uploads as the request has files: no partial list is
  ever returned.
\<close>

theorem handler_upload_failure:
  "(httpMethod ev = js ''POST'' \<and> parseMultipart Busboy ev = Inr (flds, fls)
      \<and> getDriveClient e = Inr client \<and> k < length fls
      \<and> (\<forall>i<k. \<exists>d. Drive client (take i (planned_calls U client flds (clk 0) fls))
                      (planned_calls U client flds (clk 0) fls ! i) = Inr d)
      \<and> Drive client (take k (planned_calls U client flds (clk 0) fls))
           (planned_calls U client flds (clk 0) fls ! k) = Inl err
    \<longrightarrow> handler U e Busboy clk Drive ev =
          \<lparr>returned =
             \<lparr>statusCode = 500,
              resp_headers = [(js ''Content-Type'', js ''application/json''),
                              (js ''Access-Control-Allow-Origin'', js ''*'')],
              resp_body = ErrorBody (js_or (message err) (js ''Unexpected error during upload.''))\<rparr>,
           dateReads = 1,
           driveCalls = take (Suc k) (planned_calls U client flds (clk 0) fls)\<rparr>)
   \<and> (\<forall>m n ups. resp_body (returned (handler U e Busboy clk Drive ev)) = OkBody m n ups \<longrightarrow>
        statusCode (returned (handler U e Busboy clk Drive ev)) = 200
        \<and> (\<exists>flds fls. parseMultipart Busboy ev = Inr (flds, fls)
              \<and> n = length fls \<and> length ups = length fls))"
proof (intro conjI impI allI)
  assume a: "httpMethod ev = js ''POST'' \<and> parseMultipart Busboy ev = Inr (flds, fls)
      \<and> getDriveClient e = Inr client \<and> k < length fls
      \<and> (\<forall>i<k. \<exists>d. Drive client (take i (planned_calls U client flds (clk 0) fls))
                      (planned_calls U client flds (clk 0) fls ! i) = Inr d)
      \<and> Drive client (take k (planned_calls U client flds (clk 0) fls))
           (planned_calls U client flds (clk 0) fls ! k) = Inl err"
  let ?v = "bind_locals flds (clk 0)"
  let ?P = "create_params_of U client ?v"
  from a have k: "k < length fls" by simp
  then have ne: "fls \<noteq> []" by auto
  have ok: "\<forall>i<k. \<exists>d. Drive client ([] @ take i (map ?P fls)) (?P (fls ! i)) = Inr d"
    using a k by (simp add: planned_calls_def)
  have bad: "Drive client ([] @ take k (map ?P fls)) (?P (fls ! k)) = Inl err"
    using a k by (simp add: planned_calls_def)
  from upload_loop_fail [where Drive = Drive and client = client and U = U and v = ?v
      and fs = fls and calls = "[]" and ups = "[]" and k = k and err = err] k ok bad
  have "upload_loop U Drive client ?v fls [] [] = (Inl err, take (Suc k) (map ?P fls))"
    by simp
  with handler_post [of ev Busboy flds fls e client U clk Drive] a ne
  show "handler U e Busboy clk Drive ev =
          \<lparr>returned =
             \<lparr>statusCode = 500,
              resp_headers = [(js ''Content-Type'', js ''application/json''),
                              (js ''Access-Control-Allow-Origin'', js ''*'')],
              resp_body = ErrorBody (js_or (message err) (js ''Unexpected error during upload.''))\<rparr>,
           dateReads = 1,
           driveCalls = take (Suc k) (planned_calls U client flds (clk 0) fls)\<rparr>"
    by (simp add: response500_def planned_calls_def)
next
  fix m n ups
  assume b: "resp_body (returned (handler U e Busboy clk Drive ev)) = OkBody m n ups"
  show "statusCode (returned (handler U e Busboy clk Drive ev)) = 200"
    using b
    by (auto simp add: handler_def Let_def response200_def response204_def response400_def
        response405_def response500_def split: if_splits sum.splits prod.splits)
next
  fix m n ups
  assume b: "resp_body (returned (handler U e Busboy clk Drive ev)) = OkBody m n ups"
  have POST: "httpMethod ev = js ''POST''"
    using b by (auto simp add: handler_def response204_def response405_def split: if_splits)
  obtain flds fls where p: "parseMultipart Busboy ev = Inr (flds, fls)"
    using b POST
    by (cases "parseMultipart Busboy ev")
      (auto simp add: handler_def POST_not_OPTIONS response500_def)
  have ne: "fls \<noteq> []"
    using b POST p by (auto simp add: handler_def POST_not_OPTIONS response400_def)
  obtain client where c: "getDriveClient e = Inr client"
    using b POST p ne
    by (cases "getDriveClient e") (auto simp add: handler_def POST_not_OPTIONS response500_def)
  let ?r = "upload_loop U Drive client (bind_locals flds (clk 0)) fls [] []"
  from handler_post [OF POST p ne c, of U clk Drive] b
  have "fst ?r = Inr ups \<and> n = length ups"
    by (cases ?r; cases "fst ?r") (auto simp add: response500_def response200_def)
  with upload_loop_length [of U Drive client "bind_locals flds (clk 0)" fls "[]" "[]" ups]
  have "n = length fls \<and> length ups = length fls" by simp
  with p show "\<exists>flds fls. parseMultipart Busboy ev = Inr (flds, fls)
              \<and> n = length fls \<and> length ups = length fls" by blast
qed

theorem handler_upload_failure_witness:
  "returned (handler ex_upper ex_env (ex_busboy ex_three) ex_clock ex_drive_reject2 ex_post) =
     \<lparr>statusCode = 500,
      resp_headers = [(js ''Content-Type'', js ''application/json''),
                      (js ''Access-Control-Allow-Origin'', js ''*'')],
      resp_body = ErrorBody (js ''quota exceeded'')\<rparr>
   \<and> length (driveCalls (handler ex_upper ex_env (ex_busboy ex_three) ex_clock ex_drive_reject2 ex_post)) = 2"
proof -
  have n: "length (files_of ex_three) = 3" by (simp add: files_of_def ex_three_def)
  obtain client where c: "getDriveClient ex_env = Inr client" using ex_env_client by blast
  let ?pl = "planned_calls ex_upper client (fields_of ex_three) (ex_clock 0) (files_of ex_three)"
  have l: "length ?pl = 3" using n by (simp add: planned_calls_def)
  have ok: "\<forall>i<1. \<exists>d. ex_drive_reject2 client (take i ?pl) (?pl ! i) = Inr d"
    by (simp add: ex_drive_reject2_def)
  have bad: "ex_drive_reject2 client (take 1 ?pl) (?pl ! 1) = Inl (Error (Some (js ''quota exceeded'')))"
    using l by (simp add: ex_drive_reject2_def)
  from handler_upload_failure [where ev = ex_post and Busboy = "ex_busboy ex_three"
      and flds = "fields_of ex_three" and fls = "files_of ex_three" and e = ex_env
      and client = client and k = 1 and Drive = ex_drive_reject2 and U = ex_upper
      and clk = ex_clock and err = "Error (Some (js ''quota exceeded''))"]
    ex_post_method ex_post_parse c n ok bad l
  show ?thesis by (simp add: js_or_def js_def)
qed

subsection \<open>Storage client factory\<close>

text \<open>
  The replacement on the private key: it leaves no backslash followed by \<open>n\<close>, it turns
  each such pair into one line feed, and it keeps a string without such a pair.
\<close>

lemma replace_backslash_n_head:
  "replace_backslash_n (d # s) = x # xs \<Longrightarrow> x = d \<or> x = 10"
  by (cases s) (auto split: if_splits)

lemma replace_backslash_n_no_escape: "\<not> sublist [92, 110] (replace_backslash_n s)"
proof (induction s rule: replace_backslash_n.induct)
  case (1 c d s)
  show ?case
  proof (cases "c = 92 \<and> d = 110")
    case True
    with "1.IH"(1) show ?thesis by (simp add: sublist_Cons_right)
  next
    case False
    have "\<not> prefix [92, 110] (c # replace_backslash_n (d # s))"
    proof
      assume "prefix [92, 110] (c # replace_backslash_n (d # s))"
      then obtain xs where "c = 92" "replace_backslash_n (d # s) = 110 # xs"
        by (auto simp add: prefix_def)
      with replace_backslash_n_head [of d s 110 xs] False show False by simp
    qed
    moreover have "\<not> sublist [92, 110] (replace_backslash_n (d # s))"
      using "1.IH"(2) False by blast
    moreover have "replace_backslash_n (c # d # s) = c # replace_backslash_n (d # s)"
      using False by auto
    ultimately show ?thesis by (simp only: sublist_Cons_right) simp
  qed
qed (simp_all add: sublist_Cons_right)

lemma replace_backslash_n_append:
  "replace_backslash_n (a @ [92, 110] @ b) =
     replace_backslash_n a @ [10] @ replace_backslash_n b"
  by (induction a rule: replace_backslash_n.induct) simp_all

lemma replace_backslash_n_id:
  "\<not> sublist [92, 110] s \<Longrightarrow> replace_backslash_n s = s"
proof (induction s rule: replace_backslash_n.induct)
  case (1 c d s)
  then show ?case by (auto simp add: sublist_Cons_right)
qed simp_all

text \<open>
  Claim C9. If the service-account email, the private key or the folder identifier is
  absent or empty, the client factory fails with the missing-configuration error, and
  every \<open>POST\<close> request that decodes to at least one file is answered with status 500
  carrying that error, before the clock is read or the backend is called. If all three are
  present and non-empty, the factory returns a client with the email and the folder as
  given and a private key that contains no backslash followed by \<open>n\<close>: at every such pair
  of the configured key the result is the converted text before it, one line feed, and the
  converted text after it, and a key without such a pair is used unchanged.
\<close>

theorem getDriveClient_config:
  "(\<not> truthy (GDRIVE_CLIENT_EMAIL e) \<or> \<not> truthy (GDRIVE_PRIVATE_KEY e)
      \<or> \<not> truthy (GDRIVE_FOLDER_ID e) \<longrightarrow>
      getDriveClient e = Inl (Error (Some (js
        ''Missing one or more env vars: GDRIVE_CLIENT_EMAIL, GDRIVE_PRIVATE_KEY, GDRIVE_FOLDER_ID'')))
      \<and> (\<forall>U Busboy clk Drive ev flds fls.
            httpMethod ev = js ''POST'' \<and> parseMultipart Busboy ev = Inr (flds, fls) \<and> fls \<noteq> []
            \<longrightarrow> handler U e Busboy clk Drive ev =
                  \<lparr>returned =
                     \<lparr>statusCode = 500,
                      resp_headers = [(js ''Content-Type'', js ''application/json''),
                                      (js ''Access-Control-Allow-Origin'', js ''*'')],
                      resp_body = ErrorBody (js
        ''Missing one or more env vars: GDRIVE_CLIENT_EMAIL, GDRIVE_PRIVATE_KEY, GDRIVE_FOLDER_ID'')\<rparr>,
                   dateReads = 0, driveCalls = []\<rparr>))
   \<and> (GDRIVE_CLIENT_EMAIL e = Some em \<and> em \<noteq> [] \<and> GDRIVE_PRIVATE_KEY e = Some key \<and> key \<noteq> []
        \<and> GDRIVE_FOLDER_ID e = Some fo \<and> fo \<noteq> [] \<longrightarrow>
      (\<exists>pk. getDriveClient e =
               Inr \<lparr>client_email = em, private_key = pk,
                    scopes = [js ''https://www.googleapis.com/auth/drive.file''], folderId = fo\<rparr>
         \<and> \<not> sublist [92, 110] pk
         \<and> (\<forall>a b. key = a @ [92, 110] @ b \<longrightarrow>
               pk = replace_backslash_n a @ [10] @ replace_backslash_n b)
         \<and> (\<not> sublist [92, 110] key \<longrightarrow> pk = key)))"
proof (intro conjI impI)
  assume m: "\<not> truthy (GDRIVE_CLIENT_EMAIL e) \<or> \<not> truthy (GDRIVE_PRIVATE_KEY e)
      \<or> \<not> truthy (GDRIVE_FOLDER_ID e)"
  then show g: "getDriveClient e = Inl (Error (Some (js
        ''Missing one or more env vars: GDRIVE_CLIENT_EMAIL, GDRIVE_PRIVATE_KEY, GDRIVE_FOLDER_ID'')))"
    by (auto simp add: getDriveClient_def truthy_def js_or_def Let_def split: option.splits)
  show "\<forall>U Busboy clk Drive ev flds fls.
            httpMethod ev = js ''POST'' \<and> parseMultipart Busboy ev = Inr (flds, fls) \<and> fls \<noteq> []
            \<longrightarrow> handler U e Busboy clk Drive ev =
                  \<lparr>returned =
                     \<lparr>statusCode = 500,
                      resp_headers = [(js ''Content-Type'', js ''application/json''),
                                      (js ''Access-Control-Allow-Origin'', js ''*'')],
                      resp_body = ErrorBody (js
        ''Missing one or more env vars: GDRIVE_CLIENT_EMAIL, GDRIVE_PRIVATE_KEY, GDRIVE_FOLDER_ID'')\<rparr>,
                   dateReads = 0, driveCalls = []\<rparr>"
    using g by (simp add: handler_def POST_not_OPTIONS response500_def js_or_def js_def)
next
  assume p: "GDRIVE_CLIENT_EMAIL e = Some em \<and> em \<noteq> [] \<and> GDRIVE_PRIVATE_KEY e = Some key
      \<and> key \<noteq> [] \<and> GDRIVE_FOLDER_ID e = Some fo \<and> fo \<noteq> []"
  then have "getDriveClient e =
      Inr \<lparr>client_email = em, private_key = replace_backslash_n key,
           scopes = [js ''https://www.googleapis.com/auth/drive.file''], folderId = fo\<rparr>"
    by (simp add: getDriveClient_def truthy_def js_or_def)
  then show "\<exists>pk. getDriveClient e =
               Inr \<lparr>client_email = em, private_key = pk,
                    scopes = [js ''https://www.googleapis.com/auth/drive.file''], folderId = fo\<rparr>
         \<and> \<not> sublist [92, 110] pk
         \<and> (\<forall>a b. key = a @ [92, 110] @ b \<longrightarrow>
               pk = replace_backslash_n a @ [10] @ replace_backslash_n b)
         \<and> (\<not> sublist [92, 110] key \<longrightarrow> pk = key)"
    using replace_backslash_n_no_escape [of key] replace_backslash_n_append
      replace_backslash_n_id [of key]
    by (intro exI [of _ "replace_backslash_n key"]) simp
qed

theorem getDriveClient_config_witness:
  "statusCode (returned (handler ex_upper ex_env_no_key (ex_busboy ex_cam07) ex_clock ex_drive ex_post))
     = 500
   \<and> driveCalls (handler ex_upper ex_env_no_key (ex_busboy ex_cam07) ex_clock ex_drive ex_post) = []
   \<and> (\<exists>pk. getDriveClient ex_env =
         Inr \<lparr>client_email = js ''uploader@example.iam.gserviceaccount.com'', private_key = pk,
              scopes = [js ''https://www.googleapis.com/auth/drive.file''],
              folderId = js ''folder-1''\<rparr>
        \<and> pk = js ''BEGIN'' @ [10] @ js ''abc'' @ [10] @ js ''END'')"
proof -
  have m: "\<not> truthy (GDRIVE_CLIENT_EMAIL ex_env_no_key) \<or> \<not> truthy (GDRIVE_PRIVATE_KEY ex_env_no_key)
      \<or> \<not> truthy (GDRIVE_FOLDER_ID ex_env_no_key)"
    by (simp add: ex_env_no_key_def truthy_def)
  have f: "files_of ex_cam07 \<noteq> []" by (simp add: files_of_def ex_cam07_def)
  have p: "GDRIVE_CLIENT_EMAIL ex_env = Some (js ''uploader@example.iam.gserviceaccount.com'')
      \<and> js ''uploader@example.iam.gserviceaccount.com'' \<noteq> []
      \<and> GDRIVE_PRIVATE_KEY ex_env = Some (js ''BEGIN'' @ [92, 110] @ js ''abc'' @ [92, 110] @ js ''END'')
      \<and> js ''BEGIN'' @ [92, 110] @ js ''abc'' @ [92, 110] @ js ''END'' \<noteq> []
      \<and> GDRIVE_FOLDER_ID ex_env = Some (js ''folder-1'') \<and> js ''folder-1'' \<noteq> []"
    by (simp add: ex_env_def js_def)
  have r: "replace_backslash_n (js ''BEGIN'') = js ''BEGIN''"
    "replace_backslash_n (js ''abc'' @ [92, 110] @ js ''END'') = js ''abc'' @ [10] @ js ''END''"
    by (simp_all add: js_def)
  from getDriveClient_config [of ex_env_no_key] m
  have "\<forall>U Busboy clk Drive ev flds fls.
      httpMethod ev = js ''POST'' \<and> parseMultipart Busboy ev = Inr (flds, fls) \<and> fls \<noteq> []
      \<longrightarrow> handler U ex_env_no_key Busboy clk Drive ev =
         \<lparr>returned =
            \<lparr>statusCode = 500,
             resp_headers = [(js ''Content-Type'', js ''application/json''),
                             (js ''Access-Control-Allow-Origin'', js ''*'')],
             resp_body = ErrorBody (js
        ''Missing one or more env vars: GDRIVE_CLIENT_EMAIL, GDRIVE_PRIVATE_KEY, GDRIVE_FOLDER_ID'')\<rparr>,
          dateReads = 0, driveCalls = []\<rparr>"
    by (rule conjunct2 [OF mp [OF conjunct1]])
  then have a: "handler ex_upper ex_env_no_key (ex_busboy ex_cam07) ex_clock ex_drive ex_post =
     \<lparr>returned =
        \<lparr>statusCode = 500,
         resp_headers = [(js ''Content-Type'', js ''application/json''),
                         (js ''Access-Control-Allow-Origin'', js ''*'')],
         resp_body = ErrorBody (js
        ''Missing one or more env vars: GDRIVE_CLIENT_EMAIL, GDRIVE_PRIVATE_KEY, GDRIVE_FOLDER_ID'')\<rparr>,
      dateReads = 0, driveCalls = []\<rparr>"
    using ex_post_method ex_post_parse [of ex_cam07] f
    by (elim allE [of _ ex_upper] allE [of _ "ex_busboy ex_cam07"] allE [of _ ex_clock]
        allE [of _ ex_drive] allE [of _ ex_post] allE [of _ "fields_of ex_cam07"]
        allE [of _ "files_of ex_cam07"]) simp
  from getDriveClient_config [of ex_env "js ''uploader@example.iam.gserviceaccount.com''"
      "js ''BEGIN'' @ [92, 110] @ js ''abc'' @ [92, 110] @ js ''END''" "js ''folder-1''"]
  have "\<exists>pk. getDriveClient ex_env =
         Inr \<lparr>client_email = js ''uploader@example.iam.gserviceaccount.com'', private_key = pk,
              scopes = [js ''https://www.googleapis.com/auth/drive.file''],
              folderId = js ''folder-1''\<rparr>
       \<and> \<not> sublist [92, 110] pk
       \<and> (\<forall>a b. js ''BEGIN'' @ [92, 110] @ js ''abc'' @ [92, 110] @ js ''END'' = a @ [92, 110] @ b \<longrightarrow>
               pk = replace_backslash_n a @ [10] @ replace_backslash_n b)
       \<and> (\<not> sublist [92, 110] (js ''BEGIN'' @ [92, 110] @ js ''abc'' @ [92, 110] @ js ''END'')
            \<longrightarrow> pk = js ''BEGIN'' @ [92, 110] @ js ''abc'' @ [92, 110] @ js ''END'')"
    by (rule mp [OF conjunct2]) (rule p)
  then obtain pk where pk: "getDriveClient ex_env =
         Inr \<lparr>client_email = js ''uploader@example.iam.gserviceaccount.com'', private_key = pk,
              scopes = [js ''https://www.googleapis.com/auth/drive.file''],
              folderId = js ''folder-1''\<rparr>"
      "\<forall>a b. js ''BEGIN'' @ [92, 110] @ js ''abc'' @ [92, 110] @ js ''END'' = a @ [92, 110] @ b \<longrightarrow>
               pk = replace_backslash_n a @ [10] @ replace_backslash_n b"
    by (elim exE conjE)
  from pk(2) have "js ''BEGIN'' @ [92, 110] @ js ''abc'' @ [92, 110] @ js ''END''
        = js ''BEGIN'' @ [92, 110] @ (js ''abc'' @ [92, 110] @ js ''END'') \<longrightarrow>
      pk = replace_backslash_n (js ''BEGIN'') @ [10]
      @ replace_backslash_n (js ''abc'' @ [92, 110] @ js ''END'')"
    by (elim allE)
  with r have "pk = js ''BEGIN'' @ [10] @ js ''abc'' @ [10] @ js ''END''" by simp
  with pk(1) a show ?thesis by simp
qed

subsection \<open>Remote names and descriptions\<close>

lemma replace_class_filter: "replace_class (\<lambda>c. \<not> P c) [] s = filter P s"
  by (induction s) (simp_all add: replace_class_def)

lemma replace_class_map: "replace_class P [r] s = map (\<lambda>c. if P c then r else c) s"
  by (induction s) (simp_all add: replace_class_def)

lemma isCodeChar_alphabet:
  "isCodeChar c =
     (c \<in> set (js ''ABCDEFGHIJKLMNOPQRSTUVWXYZabcdefghijklmnopqrstuvwxyz0123456789_-''))"
  unfolding isCodeChar_def js_def by simp arith

lemma safeCameraCode_bind:
  "safeCameraCode (bind_locals flds now) =
     filter isCodeChar (js_or (flds (js ''camera_code'')) (js ''no-code''))"
  by (simp add: bind_locals_def Let_def replace_class_filter)

lemma timestampSlug_bind: "timestampSlug (bind_locals flds now) = slug_of now"
  by (simp add: bind_locals_def Let_def slug_of_def js_def replace_class_map)

lemma nowIso_bind: "nowIso (bind_locals flds now) = now"
  by (simp add: bind_locals_def Let_def)

lemma name_create_params:
  "name (requestBody (create_params_of U client (bind_locals flds now) f)) =
     js ''YC-'' @ code_in_name (js_or (flds (js ''camera_code'')) (js ''no-code''))
       @ js ''_'' @ slug_of now @ js ''_'' @ original_of f"
  by (simp add: create_params_of_def Let_def newName_of_def safeCameraCode_bind
      timestampSlug_bind code_in_name_def)

lemma filter_two_nonempty:
  "y \<noteq> [] \<Longrightarrow> z \<noteq> [] \<Longrightarrow> filter (\<lambda>l. l \<noteq> []) [y, z] = [y, z]"
  by simp

lemma descriptionLines_of_end:
  "\<exists>ls. descriptionLines_of v original ver =
     ls @ [js ''Upload time: '' @ nowIso v,
           js ''Verified Yellow Camera filename pattern: '' @ (if ver then js ''yes'' else js ''no'')]"
proof -
  let ?y = "js ''Upload time: '' @ nowIso v"
  let ?z = "js ''Verified Yellow Camera filename pattern: '' @ (if ver then js ''yes'' else js ''no'')"
  let ?first =
       "[js ''Yellow Camera Project raw clip'',
        js ''Original filename: '' @ original,
        js ''Camera ID: '' @ cameraId v,
        js ''Camera code: '' @ cameraCode v,
        js ''Location: '' @ location v,
        if filmed v \<noteq> [] then js ''Date filmed: '' @ filmed v else [],
        if nickname v \<noteq> [] then js ''Person: '' @ nickname v else [],
        if email v \<noteq> [] then js ''Contact: '' @ email v else [],
        if shareLink v \<noteq> [] then js ''Share link: '' @ shareLink v else []]"
  have u: "?y \<noteq> []" "?z \<noteq> []"
    by (simp_all add: js_def)
  have "descriptionLines_of v original ver = filter (\<lambda>l. l \<noteq> []) (?first @ [?y, ?z])"
    unfolding descriptionLines_of_def by (simp only: append_Cons append_Nil)
  also have "\<dots> = filter (\<lambda>l. l \<noteq> []) ?first @ filter (\<lambda>l. l \<noteq> []) [?y, ?z]"
    by (rule filter_append)
  also have "filter (\<lambda>l. l \<noteq> []) [?y, ?z] = [?y, ?z]"
    by (rule filter_two_nonempty [OF u])
  finally have e: "descriptionLines_of v original ver =
      filter (\<lambda>l. l \<noteq> []) ?first @ [?y, ?z]" .
  show ?thesis by (rule exI) (rule e)
qed

lemma description_create_params:
  "\<exists>ls yn. description (requestBody (create_params_of U client (bind_locals flds now) f)) =
     join [10] (ls @ [js ''Upload time: '' @ now,
                      js ''Verified Yellow Camera filename pattern: '' @ yn])"
proof -
  let ?v = "bind_locals flds now"
  let ?ver = "isLikelyGoProName U (Some (original_of f))"
  from descriptionLines_of_end [of ?v "original_of f" ?ver] obtain ls where
    "descriptionLines_of ?v (original_of f) ?ver =
      ls @ [js ''Upload time: '' @ now,
            js ''Verified Yellow Camera filename pattern: '' @ (if ?ver then js ''yes'' else js ''no'')]"
    unfolding nowIso_bind by blast
  then have "description (requestBody (create_params_of U client ?v f)) =
      join [10] (ls @ [js ''Upload time: '' @ now,
             js ''Verified Yellow Camera filename pattern: '' @ (if ?ver then js ''yes'' else js ''no'')])"
    by (simp add: create_params_of_def Let_def)
  then show ?thesis by blast
qed

lemma handler_call_shape:
  assumes "p \<in> set (driveCalls (handler U e Busboy clk Drive ev))"
  shows "\<exists>flds fls client f. parseMultipart Busboy ev = Inr (flds, fls) \<and> f \<in> set fls
           \<and> p = create_params_of U client (bind_locals flds (clk 0)) f"
proof -
  from handler_calls [of U e Busboy clk Drive ev] assms obtain flds fls client n where
    h: "parseMultipart Busboy ev = Inr (flds, fls)"
      "driveCalls (handler U e Busboy clk Drive ev) = take n (planned_calls U client flds (clk 0) fls)"
    by auto
  from assms h(2) have "p \<in> set (planned_calls U client flds (clk 0) fls)"
    by (auto dest: in_set_takeD)
  then obtain f where "f \<in> set fls" "p = create_params_of U client (bind_locals flds (clk 0)) f"
    by (auto simp add: planned_calls_def)
  with h(1) show ?thesis by blast
qed

lemma fields_of_absent_aux:
  "\<forall>v. FieldPart k v \<notin> set parts \<Longrightarrow> fst (foldl on_part acc parts) k = fst acc k"
proof (induction parts arbitrary: acc)
  case Nil
  then show ?case by simp
next
  case (Cons p ps)
  obtain flds fls where acc: "acc = (flds, fls)" by (cases acc)
  from Cons.prems have ps: "\<forall>v. FieldPart k v \<notin> set ps" by simp
  show ?case
  proof (cases p)
    case (FieldPart k' v')
    with Cons.prems have "k' \<noteq> k" by auto
    with FieldPart acc Cons.IH [OF ps] show ?thesis by simp
  next
    case (FilePart a b c d)
    with acc Cons.IH [OF ps] show ?thesis by (simp add: Let_def)
  qed
qed

lemma fields_of_absent: "\<forall>v. FieldPart k v \<notin> set parts \<Longrightarrow> fields_of parts k = None"
  using fields_of_absent_aux [of k parts "(Map.empty, [])"] by (simp add: fields_of_def)

lemma code_in_name_no_code: "code_in_name (js ''no-code'') = js ''no-code''"
  by (simp add: code_in_name_def isCodeChar_def js_def)

text \<open>
  Claim C10. An invocation reads the clock at most once, and every \<open>create\<close> call it
  makes uses that one reading: all remote names of the request have the form \<open>YC-\<close>, one
  common code, \<open>_\<close>, the slug of the first clock reading, \<open>_\<close>, and the file's original
  name, and every description ends with the line \<open>Upload time:\<close> followed by the same
  reading and then the verification line. Later readings of the clock, whatever they would
  be, do not occur in any name or upload-time line.
\<close>

theorem timestamp_computed_once:
  "dateReads (handler U e Busboy clk Drive ev) \<le> 1
   \<and> (\<exists>code. \<forall>p\<in>set (driveCalls (handler U e Busboy clk Drive ev)). \<exists>original ls yn.
         name (requestBody p) = js ''YC-'' @ code @ js ''_'' @ slug_of (clk 0) @ js ''_'' @ original
         \<and> description (requestBody p) =
             join [10] (ls @ [js ''Upload time: '' @ clk 0,
                              js ''Verified Yellow Camera filename pattern: '' @ yn]))"
proof (cases "driveCalls (handler U e Busboy clk Drive ev) = []")
  case True
  then show ?thesis using handler_dateReads [of U e Busboy clk Drive ev] by simp
next
  case False
  then obtain p0 where "p0 \<in> set (driveCalls (handler U e Busboy clk Drive ev))"
    by (cases "driveCalls (handler U e Busboy clk Drive ev)") auto
  from handler_call_shape [OF this] obtain flds fls where
    parse: "parseMultipart Busboy ev = Inr (flds, fls)" by blast
  let ?code = "code_in_name (js_or (flds (js ''camera_code'')) (js ''no-code''))"
  have "\<exists>original ls yn.
         name (requestBody p) = js ''YC-'' @ ?code @ js ''_'' @ slug_of (clk 0) @ js ''_'' @ original
         \<and> description (requestBody p) =
             join [10] (ls @ [js ''Upload time: '' @ clk 0,
                              js ''Verified Yellow Camera filename pattern: '' @ yn])"
    if "p \<in> set (driveCalls (handler U e Busboy clk Drive ev))" for p
  proof -
    from handler_call_shape [OF that] parse obtain client f where
      p: "p = create_params_of U client (bind_locals flds (clk 0)) f" by auto
    from description_create_params [of U client flds "clk 0" f] obtain ls yn where
      "description (requestBody p) =
         join [10] (ls @ [js ''Upload time: '' @ clk 0,
                          js ''Verified Yellow Camera filename pattern: '' @ yn])"
      unfolding p by blast
    moreover have "name (requestBody p) =
        js ''YC-'' @ ?code @ js ''_'' @ slug_of (clk 0) @ js ''_'' @ original_of f"
      unfolding p by (rule name_create_params)
    ultimately show ?thesis by blast
  qed
  then show ?thesis using handler_dateReads [of U e Busboy clk Drive ev] by blast
qed

theorem timestamp_computed_once_witness:
  "dateReads (handler ex_upper ex_env (ex_busboy ex_three) ex_clock ex_drive ex_post) \<le> 1
   \<and> map (name \<circ> requestBody)
        (driveCalls (handler ex_upper ex_env (ex_busboy ex_three) ex_clock ex_drive ex_post)) =
       [js ''YC-c1_2024-05-06T07-08-09-123Z_a.mp4'',
        js ''YC-c1_2024-05-06T07-08-09-123Z_b.mp4'',
        js ''YC-c1_2024-05-06T07-08-09-123Z_clip.mp4'']"
proof -
  have "map (name \<circ> requestBody)
        (driveCalls (handler ex_upper ex_env (ex_busboy ex_three) ex_clock ex_drive ex_post)) =
       [js ''YC-c1_2024-05-06T07-08-09-123Z_a.mp4'',
        js ''YC-c1_2024-05-06T07-08-09-123Z_b.mp4'',
        js ''YC-c1_2024-05-06T07-08-09-123Z_clip.mp4'']"
    by (simp add: model_defs ex_defs js_def)
  with timestamp_computed_once [of ex_upper ex_env "ex_busboy ex_three" ex_clock ex_drive ex_post]
  show ?thesis by (elim conjE) (intro conjI)
qed

subsection \<open>The camera code in the remote name\<close>

text \<open>
  Claim C2, as the code has it. For a \<open>POST\<close> request whose content type is accepted and
  whose decoded parts contain no field named \<open>camera_code\<close>, the remote name of every
  \<open>create\<close> call begins with \<open>YC-no-code_\<close>: a missing code is replaced by the default
  \<open>no-code\<close> before it is sanitized, and that default survives sanitization unchanged.
\<close>

theorem missing_camera_code_prefix:
  assumes "httpMethod ev = js ''POST''"
    and "str_includes (contentType_of ev) (js ''multipart/form-data'')"
    and "Busboy (headers_of ev) (js_or (body ev) []) (isBase64Encoded ev) = Inr parts"
    and "\<forall>v. FieldPart (js ''camera_code'') v \<notin> set parts"
  shows "\<forall>p\<in>set (driveCalls (handler U e Busboy clk Drive ev)).
           prefix (js ''YC-no-code_'') (name (requestBody p))"
proof
  fix p assume "p \<in> set (driveCalls (handler U e Busboy clk Drive ev))"
  from handler_call_shape [OF this] parseMultipart_ok [of ev Busboy parts] assms(2,3)
  obtain client f where
    p: "p = create_params_of U client (bind_locals (fields_of parts) (clk 0)) f" by auto
  have "name (requestBody p) =
      js ''YC-'' @ js ''no-code'' @ js ''_'' @ slug_of (clk 0) @ js ''_'' @ original_of f"
    unfolding p name_create_params
    by (simp add: fields_of_absent [OF assms(4)] js_or_def code_in_name_no_code)
  also have "\<dots> = js ''YC-no-code_'' @ (slug_of (clk 0) @ js ''_'' @ original_of f)"
    by (simp add: js_def)
  finally show "prefix (js ''YC-no-code_'') (name (requestBody p))" by simp
qed

theorem missing_camera_code_prefix_witness:
  "list_all (\<lambda>p. prefix (js ''YC-no-code_'') (name (requestBody p)))
     (driveCalls (handler ex_upper ex_env (ex_busboy ex_random_mov) ex_clock ex_drive ex_post))
   \<and> length (driveCalls (handler ex_upper ex_env (ex_busboy ex_random_mov) ex_clock ex_drive ex_post)) = 1"
proof -
  have b: "ex_busboy ex_random_mov (headers_of ex_post) (js_or (body ex_post) [])
      (isBase64Encoded ex_post) = Inr ex_random_mov"
    by (simp add: ex_busboy_def)
  have a: "\<forall>v. FieldPart (js ''camera_code'') v \<notin> set ex_random_mov"
    by (simp add: ex_random_mov_def)
  have l: "length (driveCalls (handler ex_upper ex_env (ex_busboy ex_random_mov) ex_clock ex_drive ex_post)) = 1"
    by (simp add: model_defs ex_defs js_def)
  from missing_camera_code_prefix [where ev = ex_post and Busboy = "ex_busboy ex_random_mov"
      and parts = ex_random_mov and U = ex_upper and e = ex_env and clk = ex_clock
      and Drive = ex_drive] ex_post_method ex_post_contentType b a l
  show ?thesis by (simp add: list_all_iff)
qed

text \<open>
  The request of the specification's example, a single file \<open>random.mov\<close> and no field
  at all: the remote name begins with \<open>YC-no-code_\<close>, not with \<open>YC-NA_\<close>.
\<close>

theorem missing_camera_code_counterexample:
  "map (name \<circ> requestBody)
     (driveCalls (handler ex_upper ex_env (ex_busboy ex_random_mov) ex_clock ex_drive ex_post)) =
     [js ''YC-no-code_2024-05-06T07-08-09-123Z_random.mov'']
   \<and> \<not> prefix (js ''YC-NA_'') (js ''YC-no-code_2024-05-06T07-08-09-123Z_random.mov'')
   \<and> fields_of ex_random_mov (js ''camera_code'') = None"
  by (simp add: model_defs ex_defs js_def fields_of_def)

text \<open>
  Claim C3, as the code has it. Sanitization keeps exactly the units of the class
  \<open>A-Za-z0-9_-\<close>, in their order and unchanged, and removes all others. For a request
  whose \<open>camera_code\<close> field is a non-empty string, the code in every remote name is the
  sanitized field, or \<open>NA\<close> if nothing is left of it. An empty \<open>camera_code\<close> field is
  treated like a missing one: the code in the remote name is \<open>no-code\<close>.
\<close>

theorem camera_code_sanitized:
  "replace_class (\<lambda>c. \<not> isCodeChar c) [] code = filter isCodeChar code
   \<and> (\<forall>c. isCodeChar c =
          (c \<in> set (js ''ABCDEFGHIJKLMNOPQRSTUVWXYZabcdefghijklmnopqrstuvwxyz0123456789_-'')))
   \<and> (parseMultipart Busboy ev = Inr (flds, fls) \<and> flds (js ''camera_code'') = Some given
        \<and> given \<noteq> [] \<longrightarrow>
        (\<forall>p\<in>set (driveCalls (handler U e Busboy clk Drive ev)). \<exists>original.
           name (requestBody p) =
             js ''YC-'' @ (if filter isCodeChar given = [] then js ''NA'' else filter isCodeChar given)
               @ js ''_'' @ slug_of (clk 0) @ js ''_'' @ original))
   \<and> (parseMultipart Busboy ev = Inr (flds, fls) \<and> flds (js ''camera_code'') = Some [] \<longrightarrow>
        (\<forall>p\<in>set (driveCalls (handler U e Busboy clk Drive ev)). \<exists>original.
           name (requestBody p) = js ''YC-no-code_'' @ slug_of (clk 0) @ js ''_'' @ original))"
proof (intro conjI impI ballI allI)
  show "replace_class (\<lambda>c. \<not> isCodeChar c) [] code = filter isCodeChar code"
    by (rule replace_class_filter)
next
  fix c
  show "isCodeChar c =
      (c \<in> set (js ''ABCDEFGHIJKLMNOPQRSTUVWXYZabcdefghijklmnopqrstuvwxyz0123456789_-''))"
    by (rule isCodeChar_alphabet)
next
  fix p
  assume a: "parseMultipart Busboy ev = Inr (flds, fls) \<and> flds (js ''camera_code'') = Some given
        \<and> given \<noteq> []"
    and p: "p \<in> set (driveCalls (handler U e Busboy clk Drive ev))"
  from handler_call_shape [OF p] a obtain client f where
    "p = create_params_of U client (bind_locals flds (clk 0)) f" by auto
  then have "name (requestBody p) =
      js ''YC-'' @ code_in_name (js_or (flds (js ''camera_code'')) (js ''no-code''))
        @ js ''_'' @ slug_of (clk 0) @ js ''_'' @ original_of f"
    by (simp only: name_create_params)
  with a show "\<exists>original. name (requestBody p) =
      js ''YC-'' @ (if filter isCodeChar given = [] then js ''NA'' else filter isCodeChar given)
        @ js ''_'' @ slug_of (clk 0) @ js ''_'' @ original"
    by (simp add: js_or_def code_in_name_def)
next
  fix p
  assume a: "parseMultipart Busboy ev = Inr (flds, fls) \<and> flds (js ''camera_code'') = Some []"
    and p: "p \<in> set (driveCalls (handler U e Busboy clk Drive ev))"
  from handler_call_shape [OF p] a obtain client f where
    "p = create_params_of U client (bind_locals flds (clk 0)) f" by auto
  then have "name (requestBody p) =
      js ''YC-'' @ code_in_name (js_or (flds (js ''camera_code'')) (js ''no-code''))
        @ js ''_'' @ slug_of (clk 0) @ js ''_'' @ original_of f"
    by (simp only: name_create_params)
  with a have "name (requestBody p) =
      js ''YC-'' @ js ''no-code'' @ js ''_'' @ slug_of (clk 0) @ js ''_'' @ original_of f"
    by (simp add: js_or_def code_in_name_no_code)
  also have "\<dots> = js ''YC-no-code_'' @ slug_of (clk 0) @ js ''_'' @ original_of f"
    by (simp add: js_def)
  finally show "\<exists>original. name (requestBody p) =
      js ''YC-no-code_'' @ slug_of (clk 0) @ js ''_'' @ original"
    by (intro exI)
qed

theorem camera_code_sanitized_witness:
  "replace_class (\<lambda>c. \<not> isCodeChar c) [] (js ''cam 07!'') = js ''cam07''
   \<and> prefix (js ''YC-cam07_'')
        (name (requestBody (hd (driveCalls
           (handler ex_upper ex_env (ex_busboy ex_cam07) ex_clock ex_drive ex_post)))))
   \<and> prefix (js ''YC-NA_'')
        (name (requestBody (hd (driveCalls
           (handler ex_upper ex_env (ex_busboy ex_bad_code) ex_clock ex_drive ex_post)))))"
proof -
  let ?H = "handler ex_upper ex_env (ex_busboy ex_cam07) ex_clock ex_drive ex_post"
  let ?B = "handler ex_upper ex_env (ex_busboy ex_bad_code) ex_clock ex_drive ex_post"
  note thm_cam = camera_code_sanitized [where code = "js ''cam 07!''" and given = "js ''cam 07!''"
      and Busboy = "ex_busboy ex_cam07" and ev = ex_post and flds = "fields_of ex_cam07"
      and fls = "files_of ex_cam07" and U = ex_upper and e = ex_env and clk = ex_clock
      and Drive = ex_drive]
  note thm_bad = camera_code_sanitized [where code = "js ''!?''" and given = "js ''!?''"
      and Busboy = "ex_busboy ex_bad_code" and ev = ex_post and flds = "fields_of ex_bad_code"
      and fls = "files_of ex_bad_code" and U = ex_upper and e = ex_env and clk = ex_clock
      and Drive = ex_drive]
  have f1: "filter isCodeChar (js ''cam 07!'') = js ''cam07''"
    by (simp add: isCodeChar_def js_def)
  have f2: "filter isCodeChar (js ''!?'') = []"
    by (simp add: isCodeChar_def js_def)
  have c1: "fields_of ex_cam07 (js ''camera_code'') = Some (js ''cam 07!'')" "js ''cam 07!'' \<noteq> []"
    by (simp_all add: fields_of_def ex_cam07_def js_def)
  have c2: "fields_of ex_bad_code (js ''camera_code'') = Some (js ''!?'')" "js ''!?'' \<noteq> []"
    by (simp_all add: fields_of_def ex_bad_code_def js_def)
  have h1: "hd (driveCalls ?H) \<in> set (driveCalls ?H)"
    by (simp add: model_defs ex_defs js_def)
  have h2: "hd (driveCalls ?B) \<in> set (driveCalls ?B)"
    by (simp add: model_defs ex_defs js_def)
  have n1: "js ''cam07'' \<noteq> []" by (simp add: js_def)
  have t1: "\<forall>p\<in>set (driveCalls ?H). \<exists>original.
      name (requestBody p) =
        js ''YC-'' @ (if filter isCodeChar (js ''cam 07!'') = [] then js ''NA''
                      else filter isCodeChar (js ''cam 07!''))
          @ js ''_'' @ slug_of (ex_clock 0) @ js ''_'' @ original"
    by (rule mp [OF conjunct1 [OF conjunct2 [OF conjunct2 [OF thm_cam]]]])
      (intro conjI ex_post_parse c1)
  have t2: "\<forall>p\<in>set (driveCalls ?B). \<exists>original.
      name (requestBody p) =
        js ''YC-'' @ (if filter isCodeChar (js ''!?'') = [] then js ''NA''
                      else filter isCodeChar (js ''!?''))
          @ js ''_'' @ slug_of (ex_clock 0) @ js ''_'' @ original"
    by (rule mp [OF conjunct1 [OF conjunct2 [OF conjunct2 [OF thm_bad]]]])
      (intro conjI ex_post_parse c2)
  from thm_cam have "replace_class (\<lambda>c. \<not> isCodeChar c) [] (js ''cam 07!'') = js ''cam07''"
    unfolding f1 by (rule conjunct1)
  moreover from bspec [OF t1 h1] obtain o1 where "name (requestBody (hd (driveCalls ?H))) =
      js ''YC-'' @ js ''cam07'' @ js ''_'' @ slug_of (ex_clock 0) @ js ''_'' @ o1"
    unfolding f1 using n1 by auto
  then have "prefix (js ''YC-cam07_'') (name (requestBody (hd (driveCalls ?H))))"
    by (simp add: js_def)
  moreover from bspec [OF t2 h2] obtain o2 where "name (requestBody (hd (driveCalls ?B))) =
      js ''YC-'' @ js ''NA'' @ js ''_'' @ slug_of (ex_clock 0) @ js ''_'' @ o2"
    unfolding f2 by auto
  then have "prefix (js ''YC-NA_'') (name (requestBody (hd (driveCalls ?B))))"
    by (simp add: js_def)
  ultimately show ?thesis by (intro conjI)
qed

text \<open>
  A request with an empty \<open>camera_code\<close> field and one file: the remote name begins with
  \<open>YC-no-code_\<close>, not with \<open>YC-NA_\<close>.
\<close>

theorem camera_code_sanitized_counterexample:
  "fields_of ex_empty_code (js ''camera_code'') = Some []
   \<and> map (name \<circ> requestBody)
        (driveCalls (handler ex_upper ex_env (ex_busboy ex_empty_code) ex_clock ex_drive ex_post)) =
       [js ''YC-no-code_2024-05-06T07-08-09-123Z_random.mov'']
   \<and> \<not> prefix (js ''YC-NA_'') (js ''YC-no-code_2024-05-06T07-08-09-123Z_random.mov'')"
  by (simp add: model_defs ex_defs js_def fields_of_def)

end
